theory Spec2Isabelle
  imports Complex_Main "HOL-Library.Char_ord" "HOL-Library.List_Lexorder" "HOL-Library.AList"
begin

unbundle bit_operations_syntax

section \<open>Python values and string helpers\<close>

text \<open>
  The JSON-native values the application stores: the values of the dictionaries written by
  \<^verbatim>\<open>save_jsonl\<close> and returned by \<^verbatim>\<open>load_jsonl\<close> and by the remote tables. Python floats
  are only carried, never computed with; they are idealised as reals. Nested lists and
  objects do not occur in the records the program writes and are left out. A dictionary is an
  association list in insertion order, read with \<^const>\<open>map_of\<close> and written with
  \<^const>\<open>AList.update\<close> (which, like a Python \<^verbatim>\<open>dict\<close>, keeps the position of an existing key
  and appends a new one).
\<close>

datatype json = JNull | JBool bool | JInt int | JFloat real | JStr string

type_synonym row = "(string \<times> json) list"

text \<open>
  \<^verbatim>\<open>str.lower\<close>, \<^verbatim>\<open>str.strip\<close> and \<^verbatim>\<open>str.split(",")\<close>. Strings are modelled as ASCII: a
  character outside \<^verbatim>\<open>A-Z\<close> is left alone by \<open>py_lower\<close>, and whitespace is the ASCII
  whitespace of \<^verbatim>\<open>str.isspace\<close> (codes 9-13 and 28-32).
\<close>

definition lower_char :: "char \<Rightarrow> char" where
  "lower_char c =
     (let n = (of_char c :: nat) in if 65 \<le> n \<and> n \<le> 90 then char_of (n + 32) else c)"

definition py_lower :: "string \<Rightarrow> string" where
  "py_lower s = map lower_char s"

definition py_isspace :: "char \<Rightarrow> bool" where
  "py_isspace c = (let n = (of_char c :: nat) in (9 \<le> n \<and> n \<le> 13) \<or> (28 \<le> n \<and> n \<le> 32))"

definition py_strip :: "string \<Rightarrow> string" where
  "py_strip s = rev (dropWhile py_isspace (rev (dropWhile py_isspace s)))"

fun py_split :: "char \<Rightarrow> string \<Rightarrow> string list" where
  "py_split d [] = [[]]"
| "py_split d (c # cs) =
     (if c = d then [] # py_split d cs
      else (case py_split d cs of
              [] \<Rightarrow> [[c]]
            | w # ws \<Rightarrow> (c # w) # ws))"

section \<open>Identity and access guard\<close>

text \<open>
  Line 14: \<^verbatim>\<open>APP_ADMIN_EMAILS = [e.strip().lower() for e in secret.split(",") if e.strip()]\<close>,
  where \<open>secret\<close> is the configured string (the empty string when the option is absent).
\<close>

definition APP_ADMIN_EMAILS :: "string \<Rightarrow> string list" where
  "APP_ADMIN_EMAILS secret =
     map (\<lambda>e. py_lower (py_strip e)) (filter (\<lambda>e. py_strip e \<noteq> []) (py_split CHR '','' secret))"

text \<open>
  \<^verbatim>\<open>st.session_state\<close>: the logged-in user (the dictionary \<^verbatim>\<open>{"email": ..., "id": ...}\<close> of
  line 174, or \<^verbatim>\<open>None\<close>) and the role, which lines 156-157 initialise to \<^verbatim>\<open>"collector"\<close>.
\<close>

record logged_in =
  user_email :: string
  user_id :: json

record session =
  session_user :: "logged_in option"
  session_role :: json

text \<open>
  Lines 31-34:
  \<^verbatim>\<open>
  def is_admin(email):
      if email and email.lower() in APP_ADMIN_EMAILS:
          return True
      return st.session_state.get("role") == "admin"
  \<close>
\<close>

definition is_admin :: "string \<Rightarrow> session \<Rightarrow> string \<Rightarrow> bool" where
  "is_admin secret st email =
     (if email \<noteq> [] \<and> py_lower email \<in> set (APP_ADMIN_EMAILS secret) then True
      else session_role st = JStr ''admin'')"

text \<open>
  The specification's reading of the allow-list: the configured entries are the comma-separated
  items of the option, trimmed, blank items dropped; an email is in the list when it equals
  one of them up to letter case.
\<close>

definition configured_allow_list :: "string \<Rightarrow> string list" where
  "configured_allow_list secret =
     filter (\<lambda>e. e \<noteq> []) (map py_strip (py_split CHR '','' secret))"

definition in_allow_list :: "string \<Rightarrow> string \<Rightarrow> bool" where
  "in_allow_list secret email =
     (\<exists>e \<in> set (configured_allow_list secret). py_lower e = py_lower email)"

section \<open>Configuration, external libraries and the state of the world\<close>

text \<open>
  Lines 11-24. The secrets are read once; a secret that is absent or empty is falsy. The
  client \<^verbatim>\<open>supabase\<close> exists when URL and anonymous key are both set, \<^verbatim>\<open>supabase_admin\<close> when
  moreover the service-role key is set; otherwise both are \<^verbatim>\<open>None\<close> and the local files under
  \<^verbatim>\<open>data/\<close> are used.
\<close>

record secrets =
  SUPABASE_URL :: "string option"
  SUPABASE_ANON_KEY :: "string option"
  SUPABASE_SERVICE_ROLE_KEY :: "string option"
  ADMIN_EMAILS :: string

definition truthy :: "string option \<Rightarrow> bool" where
  "truthy s = (s \<noteq> None \<and> s \<noteq> Some [])"

definition supabase :: "secrets \<Rightarrow> bool" where
  "supabase cfg = (truthy (SUPABASE_URL cfg) \<and> truthy (SUPABASE_ANON_KEY cfg))"

definition supabase_admin :: "secrets \<Rightarrow> bool" where
  "supabase_admin cfg = (supabase cfg \<and> truthy (SUPABASE_SERVICE_ROLE_KEY cfg))"

text \<open>
  The libraries the program calls are parameters of the model: \<^verbatim>\<open>json.dumps\<close> and
  \<^verbatim>\<open>json.loads\<close> on dictionaries (\<open>None\<close> when \<^verbatim>\<open>loads\<close> raises), \<^verbatim>\<open>bcrypt.hashpw\<close> on a
  password and a salt, and \<^verbatim>\<open>bcrypt.checkpw\<close> on a password and a stored hash (\<open>None\<close> when
  it raises on a malformed hash). Lines 28-29 wrap the last two.
\<close>

record extern =
  json_dumps :: "row \<Rightarrow> string"
  json_loads :: "string \<Rightarrow> row option"
  bcrypt_hashpw :: "string \<Rightarrow> string \<Rightarrow> string"
  bcrypt_checkpw :: "string \<Rightarrow> string \<Rightarrow> bool option"

definition hash_pwd :: "extern \<Rightarrow> string \<Rightarrow> string \<Rightarrow> string" where
  "hash_pwd ext p salt = bcrypt_hashpw ext p salt"

definition check_pwd :: "extern \<Rightarrow> string \<Rightarrow> string \<Rightarrow> bool option" where
  "check_pwd ext p h = bcrypt_checkpw ext p h"

text \<open>
  The world: the text files under \<^verbatim>\<open>data/\<close> (the directory is taken to exist), the two remote
  tables in the order in which the service lists them, and the session.
\<close>

record world =
  files :: "string \<rightharpoonup> string"
  users_table :: "row list"
  applicants_table :: "row list"
  session_state :: session

text \<open>
  What a handler shows to its caller: \<^verbatim>\<open>st.error\<close> with a message, the validation failure
  of line 307 with the errors it lists, \<^verbatim>\<open>st.success\<close> with a message, the rerun of line 176,
  an uncaught Python exception, or nothing because the control is not rendered.
\<close>

datatype err_kind = Missing | Type_error | Pattern_mismatch | Value_error string

type_synonym verr = "string \<times> err_kind"

datatype outcome =
    St_error string
  | St_invalid "verr list"
  | St_success string
  | St_rerun
  | Raised string
  | Not_offered

section \<open>Identifiers\<close>

text \<open>
  \<^verbatim>\<open>str(uuid.uuid4())\<close>: sixteen random bytes read as an integer \<open>r\<close> below \<open>2^128\<close>, the
  variant and version bits forced as \<^verbatim>\<open>uuid.UUID(bytes=..., version=4)\<close> does, printed as 32
  lower-case hexadecimal digits in groups of 8-4-4-4-12.
\<close>

definition hexdigits :: string where
  "hexdigits = ''0123456789abcdef''"

fun hex_fixed :: "nat \<Rightarrow> int \<Rightarrow> string" where
  "hex_fixed 0 x = []"
| "hex_fixed (Suc n) x = hex_fixed n (x div 16) @ [hexdigits ! nat (x mod 16)]"

definition uuid4_int :: "int \<Rightarrow> int" where
  "uuid4_int r =
     (let i = r AND NOT (push_bit 48 0xc000);
          i = i OR push_bit 48 0x8000;
          i = i AND NOT (push_bit 64 0xf000);
          i = i OR push_bit 76 4
      in i)"

definition uuid_str :: "int \<Rightarrow> string" where
  "uuid_str u =
     (let hex = hex_fixed 32 u
      in take 8 hex @ ''-'' @ take 4 (drop 8 hex) @ ''-'' @ take 4 (drop 12 hex) @ ''-''
         @ take 4 (drop 16 hex) @ ''-'' @ drop 20 hex)"

definition uuid4 :: "int \<Rightarrow> string" where
  "uuid4 r = uuid_str (uuid4_int r)"

section \<open>The record store\<close>

subsection \<open>Local line store\<close>

definition LF :: char where
  "LF = CHR 0x0A"

definition CR :: char where
  "CR = CHR 0x0D"

text \<open>
  Lines 48-50. The file is opened for appending (created when absent) and one line is
  written; on POSIX the newline is written as it is. The dictionaries written are
  JSON-native, so \<^verbatim>\<open>default=str\<close> is never consulted.
  \<^verbatim>\<open>
  def save_jsonl(path, obj):
      with open(path,"a") as f:
          f.write(json.dumps(obj, default=str)+"\n")
  \<close>
\<close>

definition save_jsonl :: "extern \<Rightarrow> string \<Rightarrow> row \<Rightarrow> world \<Rightarrow> world" where
  "save_jsonl ext path obj w =
     w\<lparr>files := (files w)(path \<mapsto>
          (case files w path of None \<Rightarrow> [] | Some s \<Rightarrow> s) @ json_dumps ext obj @ [LF])\<rparr>"

text \<open>
  Reading a text file: \<^verbatim>\<open>open(path)\<close> translates \<^verbatim>\<open>\r\n\<close> and \<^verbatim>\<open>\r\<close> to \<^verbatim>\<open>\n\<close>, and iterating
  over the file yields the lines with their terminator, the last one possibly without.
\<close>

fun universal_newlines :: "string \<Rightarrow> string" where
  "universal_newlines [] = []"
| "universal_newlines [c] = (if c = CR then [LF] else [c])"
| "universal_newlines (c # d # cs) =
     (if c = CR then (if d = LF then LF # universal_newlines cs
                      else LF # universal_newlines (d # cs))
      else c # universal_newlines (d # cs))"

fun readlines :: "string \<Rightarrow> string list" where
  "readlines [] = []"
| "readlines (c # cs) =
     (if c = LF then [c] # readlines cs
      else (case readlines cs of
              [] \<Rightarrow> [[c]]
            | l # ls \<Rightarrow> (c # l) # ls))"

text \<open>
  Lines 52-59. A line that fails to parse raises out of \<open>load_jsonl\<close>.
  \<^verbatim>\<open>
  def load_jsonl(path):
      rows = []
      if os.path.exists(path):
          with open(path) as f:
              for line in f:
                  if line.strip():
                      rows.append(json.loads(line))
      return rows
  \<close>
\<close>

fun parse_lines :: "extern \<Rightarrow> string list \<Rightarrow> string + row list" where
  "parse_lines ext [] = Inr []"
| "parse_lines ext (line # ls) =
     (if py_strip line \<noteq> [] then
        (case json_loads ext line of
           None \<Rightarrow> Inl ''JSONDecodeError''
         | Some r \<Rightarrow> (case parse_lines ext ls of Inl e \<Rightarrow> Inl e | Inr rs \<Rightarrow> Inr (r # rs)))
      else parse_lines ext ls)"

definition load_jsonl :: "extern \<Rightarrow> string \<Rightarrow> world \<Rightarrow> string + row list" where
  "load_jsonl ext path w =
     (case files w path of
        None \<Rightarrow> Inr []
      | Some s \<Rightarrow> parse_lines ext (readlines (universal_newlines s)))"

text \<open>The file that a list of records leaves behind when each is written as one line.\<close>

definition jsonl_text :: "extern \<Rightarrow> row list \<Rightarrow> string" where
  "jsonl_text ext rs = concat (map (\<lambda>r. json_dumps ext r @ [LF]) rs)"

subsection \<open>Remote tables\<close>

text \<open>
  The table service, as far as the program uses it: \<^verbatim>\<open>select("*").eq(col, v)\<close> keeps the
  rows whose column equals the value, \<^verbatim>\<open>insert(rec)\<close> appends the row and answers with the
  inserted data, \<^verbatim>\<open>update({col2: x}).eq(col, v)\<close> rewrites the matching rows.
\<close>

definition select_eq :: "row list \<Rightarrow> string \<Rightarrow> json \<Rightarrow> row list" where
  "select_eq tbl col v = filter (\<lambda>r. map_of r col = Some v) tbl"

definition insert_row :: "row list \<Rightarrow> row \<Rightarrow> row list \<times> row list" where
  "insert_row tbl rec = ([rec], tbl @ [rec])"

definition update_eq :: "row list \<Rightarrow> string \<Rightarrow> json \<Rightarrow> string \<Rightarrow> json \<Rightarrow> row list" where
  "update_eq tbl col2 x col v =
     map (\<lambda>r. if map_of r col = Some v then AList.update col2 x r else r) tbl"

section \<open>Login and user creation\<close>

text \<open>
  Line 168, local branch: the rows whose \<^verbatim>\<open>email\<close>, lower-cased, equals the lower-cased
  input. A row without the key, or whose email is not a string, raises.
\<close>

fun local_match :: "string \<Rightarrow> row list \<Rightarrow> string + row list" where
  "local_match email [] = Inr []"
| "local_match email (r # rs) =
     (case map_of r ''email'' of
        None \<Rightarrow> Inl ''KeyError''
      | Some (JStr e) \<Rightarrow>
          (case local_match email rs of
             Inl x \<Rightarrow> Inl x
           | Inr ms \<Rightarrow> Inr (if py_lower e = py_lower email then r # ms else ms))
      | Some _ \<Rightarrow> Inl ''AttributeError'')"

text \<open>Lines 164-168: the candidate rows for a login, on the active backend.\<close>

definition login_rows :: "extern \<Rightarrow> secrets \<Rightarrow> world \<Rightarrow> string \<Rightarrow> string + row list" where
  "login_rows ext cfg w email =
     (if supabase cfg then Inr (select_eq (users_table w) ''email'' (JStr email))
      else (case load_jsonl ext ''data/users.jsonl'' w of
              Inl x \<Rightarrow> Inl x
            | Inr rs \<Rightarrow> local_match email rs))"

text \<open>
  Lines 159-178, when \<^verbatim>\<open>Sign in\<close> is pressed; \<open>rnd\<close> is the randomness \<^verbatim>\<open>uuid4\<close> would draw.
  \<^verbatim>\<open>
  if not rows:
      st.error("User not found")
  else:
      user = rows[0]
      if check_pwd(password, user["password_hash"]):
          st.session_state.user = {"email": email, "id": user.get("id", str(uuid.uuid4()))}
          st.session_state.role = user.get("role","collector")
          st.experimental_rerun()
      else:
          st.error("Incorrect password")
  \<close>
\<close>

definition login_box ::
  "extern \<Rightarrow> secrets \<Rightarrow> world \<Rightarrow> string \<Rightarrow> string \<Rightarrow> int \<Rightarrow> outcome \<times> world" where
  "login_box ext cfg w email password rnd =
     (case login_rows ext cfg w email of
        Inl x \<Rightarrow> (Raised x, w)
      | Inr [] \<Rightarrow> (St_error ''User not found'', w)
      | Inr (u # _) \<Rightarrow>
          (case map_of u ''password_hash'' of
             None \<Rightarrow> (Raised ''KeyError'', w)
           | Some (JStr h) \<Rightarrow>
               (case check_pwd ext password h of
                  None \<Rightarrow> (Raised ''ValueError'', w)
                | Some True \<Rightarrow>
                    (St_rerun,
                     w\<lparr>session_state :=
                         \<lparr>session_user = Some
                            \<lparr>user_email = email,
                             user_id = (case map_of u ''id'' of
                                          Some i \<Rightarrow> i
                                        | None \<Rightarrow> JStr (uuid4 rnd))\<rparr>,
                          session_role = (case map_of u ''role'' of
                                            Some r \<Rightarrow> r
                                          | None \<Rightarrow> JStr ''collector'')\<rparr>\<rparr>)
                | Some False \<Rightarrow> (St_error ''Incorrect password'', w))
           | Some _ \<Rightarrow> (Raised ''AttributeError'', w)))"

text \<open>
  Line 189: \<^verbatim>\<open>st.session_state.user["email"] if st.session_state.user else ""\<close>.
\<close>

definition caller_email :: "world \<Rightarrow> string" where
  "caller_email w =
     (case session_user (session_state w) of None \<Rightarrow> [] | Some u \<Rightarrow> user_email u)"

text \<open>
  Lines 180-200, when the form is submitted; \<open>salt\<close> is what \<^verbatim>\<open>bcrypt.gensalt()\<close> returns
  and \<open>rnd\<close> the randomness of \<^verbatim>\<open>uuid4\<close>.
  \<^verbatim>\<open>
  if not is_admin(st.session_state.user["email"] if st.session_state.user else ""):
      st.error("Admins only")
  elif pwd1 != pwd2 or len(pwd1) < 6:
      st.error("Passwords must match and be at least 6 chars")
  else:
      rec = {"email": email.lower(), "password_hash": hash_pwd(pwd1), "role": role_sel}
      if supabase_admin:
          supabase_admin.table("users").insert(rec).execute()
      else:
          rec["id"] = str(uuid.uuid4())
          save_jsonl("data/users.jsonl", rec)
      st.success("User created")
  \<close>
\<close>

definition admin_create_user_box ::
  "extern \<Rightarrow> secrets \<Rightarrow> world \<Rightarrow> string \<Rightarrow> string \<Rightarrow> string \<Rightarrow> string \<Rightarrow> string \<Rightarrow> int
     \<Rightarrow> outcome \<times> world" where
  "admin_create_user_box ext cfg w email role_sel pwd1 pwd2 salt rnd =
     (if \<not> is_admin (ADMIN_EMAILS cfg) (session_state w) (caller_email w) then
        (St_error ''Admins only'', w)
      else if pwd1 \<noteq> pwd2 \<or> length pwd1 < 6 then
        (St_error ''Passwords must match and be at least 6 chars'', w)
      else
        (let rec = [(''email'', JStr (py_lower email)),
                    (''password_hash'', JStr (hash_pwd ext pwd1 salt)),
                    (''role'', JStr role_sel)]
         in if supabase_admin cfg then
              (St_success ''User created'',
               w\<lparr>users_table := snd (insert_row (users_table w) rec)\<rparr>)
            else
              (St_success ''User created'',
               save_jsonl ext ''data/users.jsonl''
                 (AList.update ''id'' (JStr (uuid4 rnd)) rec) w)))"

section \<open>Schema validator\<close>

text \<open>
  The values the form hands to \<^verbatim>\<open>Applicant(...)\<close> on lines 290-305: \<^verbatim>\<open>None\<close>, booleans,
  integers, floats, strings and \<^verbatim>\<open>datetime.date\<close> objects. The keyword arguments are a
  dictionary from field names to such values.
\<close>

datatype date = Date nat nat nat

datatype pyval = PNone | PBool bool | PInt int | PFloat real | PStr string | PDate date

type_synonym kwargs = "(string \<times> pyval) list"

text \<open>
  The annotations of the class. \<open>TPattern\<close> is a string constrained by
  \<^verbatim>\<open>Field(pattern="^(a|b)$")\<close>, given by its alternatives; \<open>TOptional\<close> is
  \<^verbatim>\<open>Optional[...] = None\<close>, a field that may be omitted or \<^verbatim>\<open>None\<close>.
\<close>

datatype annotation = TStr | TPattern "string list" | TDate | TBool | TInt | TFloat
  | TOptional annotation

text \<open>Lines 62-106, the fields of \<^verbatim>\<open>class Applicant(BaseModel)\<close> in the order declared.\<close>

definition Applicant_fields :: "(string \<times> annotation) list" where
  "Applicant_fields =
     [(''region'', TStr),
      (''batch'', TStr),
      (''zone'', TStr),
      (''woreda'', TStr),
      (''kebele'', TStr),
      (''first_name'', TStr),
      (''father_name'', TStr),
      (''grandfather_name'', TStr),
      (''date_of_birth'', TDate),
      (''date_collected'', TDate),
      (''sex'', TPattern [''m'', ''f'']),
      (''applicant_address'', TStr),
      (''has_business_license'', TBool),
      (''trade_license_number'', TOptional TStr),
      (''trade'', TOptional TStr),
      (''registration_number'', TOptional TStr),
      (''tin_number'', TOptional TStr),
      (''date_of_business_license'', TOptional TDate),
      (''enterprise_category'', TStr),
      (''ownership_form'', TStr),
      (''business_sector'', TStr),
      (''number_of_owners'', TInt),
      (''owners_names'', TStr),
      (''registered_address'', TStr),
      (''business_premise'', TStr),
      (''male_employees'', TInt),
      (''female_employees'', TInt),
      (''business_capital_etb'', TFloat),
      (''monthly_revenue_etb'', TFloat),
      (''annual_revenue_last3'', TFloat),
      (''net_profit_last3'', TFloat),
      (''financing_required_etb'', TFloat),
      (''source_of_repayment'', TStr),
      (''purpose_of_funds'', TStr),
      (''guarantor_first_name'', TStr),
      (''guarantor_father_name'', TStr),
      (''guarantor_grandfather_name'', TStr),
      (''guarantor_phone'', TStr),
      (''guarantor_monthly_income'', TFloat),
      (''credit_history'', TStr),
      (''cbe_account_number'', TStr),
      (''cbe_branch'', TStr),
      (''cbe_city'', TStr),
      (''mode_of_finance'', TStr)]"

text \<open>
  Lines 108-136, the five validators.
  \<^verbatim>\<open>
  @validator("enterprise_category")
  def v1(cls, v):
      if v not in ["micro","small","medium","startup"]:
          raise ValueError("Invalid enterprise category")
      return v
  \<close>
\<close>

definition v1 :: "pyval \<Rightarrow> string + pyval" where
  "v1 v = (if v \<notin> set (map PStr [''micro'', ''small'', ''medium'', ''startup''])
           then Inl ''Invalid enterprise category'' else Inr v)"

definition v2 :: "pyval \<Rightarrow> string + pyval" where
  "v2 v = (if v \<notin> set (map PStr [''soleproprietorship'', ''partnership'', ''plc''])
           then Inl ''Invalid ownership form'' else Inr v)"

definition v3 :: "pyval \<Rightarrow> string + pyval" where
  "v3 v = (if v \<notin> set (map PStr [''manufacturing'', ''construction'', ''agriculture'', ''mining'',
                                   ''service'', ''others''])
           then Inl ''Invalid business sector'' else Inr v)"

definition v4 :: "pyval \<Rightarrow> string + pyval" where
  "v4 v = (if v \<notin> set (map PStr [''rented'', ''applicant_owned'', ''government''])
           then Inl ''Invalid business premise'' else Inr v)"

definition v5 :: "pyval \<Rightarrow> string + pyval" where
  "v5 v = (if v \<notin> set (map PStr [''conventional'', ''ifb''])
           then Inl ''Invalid mode of finance'' else Inr v)"

definition validators :: "string \<Rightarrow> (pyval \<Rightarrow> string + pyval) option" where
  "validators n =
     (if n = ''enterprise_category'' then Some v1
      else if n = ''ownership_form'' then Some v2
      else if n = ''business_sector'' then Some v3
      else if n = ''business_premise'' then Some v4
      else if n = ''mode_of_finance'' then Some v5
      else None)"

text \<open>
  How the model class validates its keyword arguments. Every field is validated, in the
  order declared, and the errors of all fields are collected; the instance is built only
  when there is none. A field that is omitted is an error unless it has the default
  \<^verbatim>\<open>None\<close>; a value is checked against the annotation; a validator runs only on a value that
  passed that check. A value of another Python type than the annotation is reported as a
  type error: the conversions the library attempts in that case (for instance of the string
  \<^verbatim>\<open>"3"\<close> for an integer field) are not modelled, and the form never passes such a value.
\<close>

fun validate_type :: "annotation \<Rightarrow> pyval \<Rightarrow> err_kind + pyval" where
  "validate_type TStr v = (case v of PStr s \<Rightarrow> Inr v | _ \<Rightarrow> Inl Type_error)"
| "validate_type (TPattern alts) v =
     (case v of
        PStr s \<Rightarrow> if s \<in> set alts then Inr v else Inl Pattern_mismatch
      | _ \<Rightarrow> Inl Type_error)"
| "validate_type TDate v = (case v of PDate d \<Rightarrow> Inr v | _ \<Rightarrow> Inl Type_error)"
| "validate_type TBool v = (case v of PBool b \<Rightarrow> Inr v | _ \<Rightarrow> Inl Type_error)"
| "validate_type TInt v = (case v of PInt i \<Rightarrow> Inr v | _ \<Rightarrow> Inl Type_error)"
| "validate_type TFloat v = (case v of PFloat x \<Rightarrow> Inr v | _ \<Rightarrow> Inl Type_error)"
| "validate_type (TOptional a) v = (if v = PNone then Inr PNone else validate_type a v)"

fun has_default :: "annotation \<Rightarrow> bool" where
  "has_default (TOptional a) = True"
| "has_default a = False"

definition validate_field :: "kwargs \<Rightarrow> string \<Rightarrow> annotation \<Rightarrow> err_kind + pyval" where
  "validate_field kw n a =
     (case map_of kw n of
        None \<Rightarrow> if has_default a then Inr PNone else Inl Missing
      | Some v \<Rightarrow>
          (case validate_type a v of
             Inl e \<Rightarrow> Inl e
           | Inr v' \<Rightarrow>
               (case validators n of
                  None \<Rightarrow> Inr v'
                | Some check \<Rightarrow>
                    (case check v' of
                       Inl msg \<Rightarrow> Inl (Value_error msg)
                     | Inr v'' \<Rightarrow> Inr v''))))"

fun errors_of :: "(string \<times> annotation) list \<Rightarrow> kwargs \<Rightarrow> verr list" where
  "errors_of [] kw = []"
| "errors_of ((n, a) # fs) kw =
     (case validate_field kw n a of
        Inl e \<Rightarrow> (n, e) # errors_of fs kw
      | Inr v \<Rightarrow> errors_of fs kw)"

fun values_of :: "(string \<times> annotation) list \<Rightarrow> kwargs \<Rightarrow> kwargs" where
  "values_of [] kw = []"
| "values_of ((n, a) # fs) kw =
     (case validate_field kw n a of
        Inl e \<Rightarrow> values_of fs kw
      | Inr v \<Rightarrow> (n, v) # values_of fs kw)"

text \<open>
  \<^verbatim>\<open>Applicant(**kw)\<close>: the instance, as the dictionary of its fields, or the
  \<^verbatim>\<open>ValidationError\<close> with one entry for every field in error.
\<close>

definition Applicant :: "kwargs \<Rightarrow> verr list + kwargs" where
  "Applicant kw =
     (if errors_of Applicant_fields kw = [] then Inr (values_of Applicant_fields kw)
      else Inl (errors_of Applicant_fields kw))"

subsection \<open>The constraints in the words of the specification\<close>

text \<open>
  The closed value sets of the enumerated fields, as the comments on lines 73-106 list
  them.
\<close>

definition enumeration :: "string \<Rightarrow> string list option" where
  "enumeration n =
     (if n = ''sex'' then Some [''m'', ''f'']
      else if n = ''enterprise_category'' then Some [''micro'', ''small'', ''medium'', ''startup'']
      else if n = ''ownership_form'' then Some [''soleproprietorship'', ''partnership'', ''plc'']
      else if n = ''business_sector'' then
        Some [''manufacturing'', ''construction'', ''agriculture'', ''mining'', ''service'', ''others'']
      else if n = ''business_premise'' then Some [''rented'', ''applicant_owned'', ''government'']
      else if n = ''mode_of_finance'' then Some [''conventional'', ''ifb'']
      else None)"

text \<open>A calendar date, as \<^verbatim>\<open>datetime.date\<close> admits it.\<close>

definition leap_year :: "nat \<Rightarrow> bool" where
  "leap_year y = (y mod 4 = 0 \<and> (y mod 100 \<noteq> 0 \<or> y mod 400 = 0))"

definition days_in_month :: "nat \<Rightarrow> nat \<Rightarrow> nat" where
  "days_in_month y m =
     (if m = 2 then (if leap_year y then 29 else 28)
      else if m \<in> {4, 6, 9, 11} then 30 else 31)"

fun valid_date :: "date \<Rightarrow> bool" where
  "valid_date (Date y m d) =
     (1 \<le> y \<and> y \<le> 9999 \<and> 1 \<le> m \<and> m \<le> 12 \<and> 1 \<le> d \<and> d \<le> days_in_month y m)"

text \<open>
  A field satisfies its constraint: it carries a value of its declared kind (an optional
  field may be omitted or \<^verbatim>\<open>None\<close>), a date is a calendar date, a required string is not
  empty, an enumerated field lies in its closed set, and a count or an amount is not
  negative (the profit or loss of \<^verbatim>\<open>net_profit_last3\<close> may be).
\<close>

fun value_ok :: "annotation \<Rightarrow> pyval \<Rightarrow> bool" where
  "value_ok TStr v = (case v of PStr s \<Rightarrow> s \<noteq> [] | _ \<Rightarrow> False)"
| "value_ok (TPattern alts) v = (case v of PStr s \<Rightarrow> s \<in> set alts | _ \<Rightarrow> False)"
| "value_ok TDate v = (case v of PDate d \<Rightarrow> valid_date d | _ \<Rightarrow> False)"
| "value_ok TBool v = (case v of PBool b \<Rightarrow> True | _ \<Rightarrow> False)"
| "value_ok TInt v = (case v of PInt i \<Rightarrow> 0 \<le> i | _ \<Rightarrow> False)"
| "value_ok TFloat v = (case v of PFloat x \<Rightarrow> True | _ \<Rightarrow> False)"
| "value_ok (TOptional a) v =
     (case v of
        PNone \<Rightarrow> True
      | PStr s \<Rightarrow> a = TStr
      | PDate d \<Rightarrow> a = TDate \<and> valid_date d
      | _ \<Rightarrow> False)"

definition field_ok :: "kwargs \<Rightarrow> string \<Rightarrow> annotation \<Rightarrow> bool" where
  "field_ok kw n a =
     (case map_of kw n of
        None \<Rightarrow> has_default a
      | Some v \<Rightarrow>
          value_ok a v
          \<and> (case enumeration n of None \<Rightarrow> True | Some xs \<Rightarrow> v \<in> set (map PStr xs))
          \<and> (case v of PFloat x \<Rightarrow> n = ''net_profit_last3'' \<or> 0 \<le> x | _ \<Rightarrow> True))"

definition satisfies_constraints :: "kwargs \<Rightarrow> bool" where
  "satisfies_constraints kw = list_all (\<lambda>(n, a). field_ok kw n a) Applicant_fields"

text \<open>
  A field is violated when it is required and missing (omitted, or passed as \<^verbatim>\<open>None\<close>), or
  when it is enumerated and its value is outside the closed set.
\<close>

definition violated :: "kwargs \<Rightarrow> string \<Rightarrow> bool" where
  "violated kw n =
     (case map_of Applicant_fields n of
        None \<Rightarrow> False
      | Some a \<Rightarrow>
          (\<not> has_default a \<and> (map_of kw n = None \<or> map_of kw n = Some PNone))
          \<or> (case enumeration n of
                None \<Rightarrow> False
              | Some xs \<Rightarrow>
                  (case map_of kw n of None \<Rightarrow> False | Some v \<Rightarrow> v \<notin> set (map PStr xs))))"

section \<open>Collector page\<close>

text \<open>
  \<^verbatim>\<open>str(ULID())\<close>: the clock in milliseconds (48 bits) and ten random bytes, printed as 10
  and 16 digits of Crockford's base 32, most significant first.
\<close>

definition crockford :: string where
  "crockford = ''0123456789ABCDEFGHJKMNPQRSTVWXYZ''"

fun base32_fixed :: "nat \<Rightarrow> nat \<Rightarrow> string" where
  "base32_fixed 0 x = []"
| "base32_fixed (Suc n) x = base32_fixed n (x div 32) @ [crockford ! (x mod 32)]"

definition ULID_str :: "nat \<Rightarrow> nat \<Rightarrow> string" where
  "ULID_str now rnd = base32_fixed 10 now @ base32_fixed 16 rnd"

text \<open>\<^verbatim>\<open>str(d)\<close> for a date: \<^verbatim>\<open>YYYY-MM-DD\<close>.\<close>

fun dec_fixed :: "nat \<Rightarrow> nat \<Rightarrow> string" where
  "dec_fixed 0 x = []"
| "dec_fixed (Suc n) x = dec_fixed n (x div 10) @ [char_of (48 + x mod 10)]"

fun str_date :: "date \<Rightarrow> string" where
  "str_date (Date y m d) = dec_fixed 4 y @ ''-'' @ dec_fixed 2 m @ ''-'' @ dec_fixed 2 d"

text \<open>
  Lines 311-328 build the stored dictionary from the same form values as the keyword
  arguments of lines 290-305, field by field; the dates are written with \<^verbatim>\<open>str\<close>.
\<close>

fun stored_value :: "pyval \<Rightarrow> json" where
  "stored_value PNone = JNull"
| "stored_value (PBool b) = JBool b"
| "stored_value (PInt i) = JInt i"
| "stored_value (PFloat x) = JFloat x"
| "stored_value (PStr s) = JStr s"
| "stored_value (PDate d) = JStr (str_date d)"

definition build_rec :: "string \<Rightarrow> kwargs \<Rightarrow> json \<Rightarrow> row" where
  "build_rec ident kw collected_by =
     (''id'', JStr ident)
     # map (\<lambda>(n, a). (n, case map_of kw n of None \<Rightarrow> JNull | Some v \<Rightarrow> stored_value v))
         Applicant_fields
     @ [(''collected_by'', collected_by)]"

text \<open>
  Lines 288-338, when \<^verbatim>\<open>Save Applicant\<close> is pressed with the keyword arguments \<open>kw\<close>; \<open>now\<close>
  is the clock in milliseconds and \<open>rnd\<close> the random part of the identifier. Any exception
  of \<^verbatim>\<open>Applicant(...)\<close> is reported and the run stops before the record is built.
  \<^verbatim>\<open>
  try:
      Applicant(...)
  except Exception as e:
      st.error(f"Missing/invalid fields: {e}")
      st.stop()
  rec = dict(id=str(ULID()), ..., collected_by=st.session_state.user["id"])
  if supabase:
      res = supabase.table("applicants").insert(rec).execute()
      if res.data: st.success("Saved to cloud")
      else: st.error("Cloud save failed")
  else:
      save_jsonl("data/applicants.jsonl", rec)
      st.success("Saved locally (demo mode)")
  \<close>
\<close>

definition collector_page ::
  "extern \<Rightarrow> secrets \<Rightarrow> world \<Rightarrow> kwargs \<Rightarrow> nat \<Rightarrow> nat \<Rightarrow> outcome \<times> world" where
  "collector_page ext cfg w kw now rnd =
     (case Applicant kw of
        Inl errs \<Rightarrow> (St_invalid errs, w)
      | Inr m \<Rightarrow>
          if 2 ^ 48 \<le> now then (Raised ''OverflowError'', w)
          else
            (case session_user (session_state w) of
               None \<Rightarrow> (Raised ''TypeError'', w)
             | Some u \<Rightarrow>
                 (let rec = build_rec (ULID_str now rnd) kw (user_id u)
                  in if supabase cfg then
                       (case insert_row (applicants_table w) rec of
                          (data, tbl) \<Rightarrow>
                            (if data \<noteq> [] then St_success ''Saved to cloud''
                             else St_error ''Cloud save failed'',
                             w\<lparr>applicants_table := tbl\<rparr>))
                     else
                       (St_success ''Saved locally (demo mode)'',
                        save_jsonl ext ''data/applicants.jsonl'' rec w))))"

text \<open>
  A sequence of submissions, each with its clock value and its randomness: the page is run
  once for each, on the world the previous run left. \<open>file_text\<close> is the content of a local
  file, empty when the file is absent; \<open>created\<close> are the records the accepted submissions
  build for the session user, and \<open>issued\<close> their identifiers, in the order of creation.
\<close>

definition file_text :: "world \<Rightarrow> string \<Rightarrow> string" where
  "file_text w path = (case files w path of None \<Rightarrow> [] | Some s \<Rightarrow> s)"

fun submit_all :: "extern \<Rightarrow> secrets \<Rightarrow> world \<Rightarrow> (kwargs \<times> nat \<times> nat) list \<Rightarrow> world" where
  "submit_all ext cfg w [] = w"
| "submit_all ext cfg w ((kw, now, rnd) # rest) =
     submit_all ext cfg (snd (collector_page ext cfg w kw now rnd)) rest"

definition created :: "logged_in \<Rightarrow> (kwargs \<times> nat \<times> nat) list \<Rightarrow> row list" where
  "created u evs = map (\<lambda>(kw, now, rnd). build_rec (ULID_str now rnd) kw (user_id u)) evs"

definition issued :: "(kwargs \<times> nat \<times> nat) list \<Rightarrow> string list" where
  "issued evs = map (\<lambda>(kw, now, rnd). ULID_str now rnd) evs"

section \<open>Admin page\<close>

text \<open>
  Lines 346-354: the applicants the admin page lists. The service-role query is ordered by
  \<^verbatim>\<open>auto_number\<close>, which is the order of the table as modelled.
\<close>

definition load_applicants :: "extern \<Rightarrow> secrets \<Rightarrow> world \<Rightarrow> string + row list" where
  "load_applicants ext cfg w =
     (if supabase_admin cfg then Inr (applicants_table w)
      else if supabase cfg then Inr (applicants_table w)
      else load_jsonl ext ''data/applicants.jsonl'' w)"

text \<open>\<^verbatim>\<open>df.empty\<close> for \<^verbatim>\<open>pd.DataFrame(rows)\<close>: no rows, or no columns.\<close>

definition df_empty :: "row list \<Rightarrow> bool" where
  "df_empty rows = (rows = [] \<or> (\<forall>r \<in> set rows. r = []))"

text \<open>
  Lines 340-376, when \<^verbatim>\<open>Update Credit History\<close> is pressed for row index \<open>idx\<close> with the text
  \<open>new_credit\<close>. The page is only reached with a logged-in user (lines 202-204). The index widget only offers \<open>0 .. len(df)-1\<close>. Rows of the remote table
  carry their \<^verbatim>\<open>id\<close>; a listing without it raises at \<^verbatim>\<open>row["id"]\<close>.
  \<^verbatim>\<open>
  if supabase_admin:
      supabase_admin.table("applicants").update({"credit_history": new_credit}).eq("id", row["id"]).execute()
  else:
      rows[int(idx)]["credit_history"] = new_credit
      with open("data/applicants.jsonl","w") as f:
          for r in rows:
              f.write(json.dumps(r)+"\n")
  st.success("Updated")
  \<close>
\<close>

definition admin_page_update ::
  "extern \<Rightarrow> secrets \<Rightarrow> world \<Rightarrow> nat \<Rightarrow> string \<Rightarrow> outcome \<times> world" where
  "admin_page_update ext cfg w idx new_credit =
     (if \<not> is_admin (ADMIN_EMAILS cfg) (session_state w) (caller_email w) then
        (St_error ''Admins only'', w)
      else
        (case load_applicants ext cfg w of
           Inl x \<Rightarrow> (Raised x, w)
         | Inr rows \<Rightarrow>
             if df_empty rows \<or> length rows \<le> idx then (Not_offered, w)
             else if supabase_admin cfg then
               (case map_of (rows ! idx) ''id'' of
                  None \<Rightarrow> (Raised ''KeyError'', w)
                | Some i \<Rightarrow>
                    (St_success ''Updated'',
                     w\<lparr>applicants_table :=
                         update_eq (applicants_table w) ''credit_history'' (JStr new_credit) ''id'' i\<rparr>))
             else
               (St_success ''Updated'',
                w\<lparr>files := (files w)(''data/applicants.jsonl'' \<mapsto>
                     jsonl_text ext
                       (rows[idx := AList.update ''credit_history'' (JStr new_credit) (rows ! idx)]))\<rparr>)))"

section \<open>What the JSON library guarantees\<close>

text \<open>
  For a JSON-native dictionary, \<^verbatim>\<open>json.dumps\<close> returns one line of text (line breaks inside
  strings are escaped) that is not blank, and \<^verbatim>\<open>json.loads\<close>, which ignores surrounding
  whitespace, reads it back to an equal dictionary. A file ends with a newline when it is
  absent, empty, or its last character is the line feed.
\<close>

definition json_contract :: "extern \<Rightarrow> row \<Rightarrow> bool" where
  "json_contract ext r =
     (json_loads ext (json_dumps ext r @ [LF]) = Some r
      \<and> LF \<notin> set (json_dumps ext r)
      \<and> CR \<notin> set (json_dumps ext r)
      \<and> (\<exists>c \<in> set (json_dumps ext r). \<not> py_isspace c))"

definition ends_with_newline :: "world \<Rightarrow> string \<Rightarrow> bool" where
  "ends_with_newline w path =
     (case files w path of None \<Rightarrow> True | Some s \<Rightarrow> s = [] \<or> last s = LF)"

section \<open>Sample data\<close>

text \<open>
  An instance of the library parameters, for running the model on sample data: a printer
  and a reader of dictionaries whose values are plain strings (no quotes, backslashes or
  control characters, which Python would escape), in the layout of \<^verbatim>\<open>json.dumps\<close>; and a
  stand-in for the password hash that keeps the salt in front, as bcrypt does.
\<close>

definition DQ :: char where
  "DQ = CHR 0x22"

fun sample_items :: "row \<Rightarrow> string" where
  "sample_items [] = []"
| "sample_items ((k, v) # rest) =
     DQ # k @ [DQ] @ '': '' @ DQ # (case v of JStr s \<Rightarrow> s | _ \<Rightarrow> []) @ [DQ]
     @ (if rest = [] then [] else '', '' @ sample_items rest)"

definition sample_dumps :: "row \<Rightarrow> string" where
  "sample_dumps r = ''{'' @ sample_items r @ ''}''"

fun read_string :: "string \<Rightarrow> (string \<times> string) option" where
  "read_string [] = None"
| "read_string (c # cs) =
     (if c = DQ then Some ([], cs)
      else (case read_string cs of None \<Rightarrow> None | Some (a, rest) \<Rightarrow> Some (c # a, rest)))"

fun read_items :: "nat \<Rightarrow> string \<Rightarrow> row option" where
  "read_items 0 s = None"
| "read_items (Suc n) s =
     (if s = [] \<or> hd s \<noteq> DQ then None
      else (case read_string (tl s) of
              None \<Rightarrow> None
            | Some (k, s2) \<Rightarrow>
                (if take 3 s2 \<noteq> '': '' @ [DQ] then None
                 else (case read_string (drop 3 s2) of
                         None \<Rightarrow> None
                       | Some (v, s4) \<Rightarrow>
                           (if s4 = ''}'' then Some [(k, JStr v)]
                            else if take 2 s4 = '', '' then
                              (case read_items n (drop 2 s4) of
                                 None \<Rightarrow> None
                               | Some r \<Rightarrow> Some ((k, JStr v) # r))
                            else None)))))"

definition sample_loads :: "string \<Rightarrow> row option" where
  "sample_loads s =
     (let t = py_strip s
      in if t = ''{}'' then Some []
         else if t = [] \<or> hd t \<noteq> CHR ''{'' then None
         else read_items (length t) (tl t))"

definition sample_hashpw :: "string \<Rightarrow> string \<Rightarrow> string" where
  "sample_hashpw p salt = salt @ ''$'' @ rev p"

definition sample_checkpw :: "string \<Rightarrow> string \<Rightarrow> bool option" where
  "sample_checkpw p h = Some (drop (length h - Suc (length p)) h = ''$'' @ rev p)"

definition sample_ext :: extern where
  "sample_ext =
     \<lparr>json_dumps = sample_dumps, json_loads = sample_loads,
      bcrypt_hashpw = sample_hashpw, bcrypt_checkpw = sample_checkpw\<rparr>"

text \<open>
  Three configurations (local files; remote with the anonymous key only; remote with the
  service-role key), a stored user, two stored applicants cut down to a few columns, and a
  world that holds the user and the first applicant both in the local files and in the
  remote tables, with a given session user.
\<close>

definition sample_local :: secrets where
  "sample_local =
     \<lparr>SUPABASE_URL = None, SUPABASE_ANON_KEY = None, SUPABASE_SERVICE_ROLE_KEY = None,
      ADMIN_EMAILS = ''boss@edi.org''\<rparr>"

definition sample_anon :: secrets where
  "sample_anon =
     \<lparr>SUPABASE_URL = Some ''https://edi.supabase.co'', SUPABASE_ANON_KEY = Some ''anon-key'',
      SUPABASE_SERVICE_ROLE_KEY = None, ADMIN_EMAILS = ''boss@edi.org''\<rparr>"

definition sample_service :: secrets where
  "sample_service =
     \<lparr>SUPABASE_URL = Some ''https://edi.supabase.co'', SUPABASE_ANON_KEY = Some ''anon-key'',
      SUPABASE_SERVICE_ROLE_KEY = Some ''service-key'', ADMIN_EMAILS = ''boss@edi.org''\<rparr>"

definition sample_user :: row where
  "sample_user =
     [(''email'', JStr ''amina@edi.org''),
      (''password_hash'', JStr (sample_hashpw ''secret1'' ''$2b$12$salt'')),
      (''role'', JStr ''collector''),
      (''id'', JStr ''u1'')]"

definition sample_applicant :: row where
  "sample_applicant =
     [(''id'', JStr ''01J9Z3NDEKTSV4RRFFQ69G5FAV''),
      (''first_name'', JStr ''Amina''),
      (''credit_history'', JStr ''none''),
      (''collected_by'', JStr ''u1'')]"

definition sample_applicant2 :: row where
  "sample_applicant2 =
     [(''id'', JStr ''01J9Z3NDEKTSV4RRFFQ69G5FAW''),
      (''first_name'', JStr ''Bekele''),
      (''credit_history'', JStr ''good''),
      (''collected_by'', JStr ''u1'')]"

definition sample_world :: "logged_in option \<Rightarrow> world" where
  "sample_world u =
     \<lparr>files = [''data/users.jsonl'' \<mapsto> jsonl_text sample_ext [sample_user],
               ''data/applicants.jsonl'' \<mapsto> jsonl_text sample_ext [sample_applicant]],
      users_table = [sample_user],
      applicants_table = [sample_applicant],
      session_state = \<lparr>session_user = u, session_role = JStr ''collector''\<rparr>\<rparr>"

definition boss :: logged_in where
  "boss = \<lparr>user_email = ''Boss@edi.org'', user_id = JStr ''u0''\<rparr>"

definition amina :: logged_in where
  "amina = \<lparr>user_email = ''amina@edi.org'', user_id = JStr ''u1''\<rparr>"

text \<open>
  A submission as the form of lines 212-285 produces it, the same submission without
  \<^verbatim>\<open>first_name\<close> and with \<^verbatim>\<open>sex = "x"\<close>, and the same submission with an empty \<^verbatim>\<open>region\<close>.
\<close>

definition sample_kwargs :: kwargs where
  "sample_kwargs =
     [(''region'', PStr ''Oromia''),
      (''batch'', PStr ''B-07''),
      (''zone'', PStr ''East Shewa''),
      (''woreda'', PStr ''Adama''),
      (''kebele'', PStr ''04''),
      (''first_name'', PStr ''Amina''),
      (''father_name'', PStr ''Bekele''),
      (''grandfather_name'', PStr ''Tadesse''),
      (''date_of_birth'', PDate (Date 1990 1 1)),
      (''date_collected'', PDate (Date 2024 2 29)),
      (''sex'', PStr ''f''),
      (''applicant_address'', PStr ''Adama, Kebele 04''),
      (''has_business_license'', PBool True),
      (''trade_license_number'', PStr ''TL-1182''),
      (''trade'', PNone),
      (''registration_number'', PNone),
      (''tin_number'', PStr ''0051234567''),
      (''date_of_business_license'', PDate (Date 2021 6 15)),
      (''enterprise_category'', PStr ''small''),
      (''ownership_form'', PStr ''plc''),
      (''business_sector'', PStr ''manufacturing''),
      (''number_of_owners'', PInt 2),
      (''owners_names'', PStr ''Amina Bekele, Sara Bekele''),
      (''registered_address'', PStr ''Adama''),
      (''business_premise'', PStr ''rented''),
      (''male_employees'', PInt 3),
      (''female_employees'', PInt 4),
      (''business_capital_etb'', PFloat 250000),
      (''monthly_revenue_etb'', PFloat 40000),
      (''annual_revenue_last3'', PFloat 1200000),
      (''net_profit_last3'', PFloat (- 15000)),
      (''financing_required_etb'', PFloat 500000),
      (''source_of_repayment'', PStr ''sales''),
      (''purpose_of_funds'', PStr ''machinery''),
      (''guarantor_first_name'', PStr ''Dawit''),
      (''guarantor_father_name'', PStr ''Alemu''),
      (''guarantor_grandfather_name'', PStr ''Kebede''),
      (''guarantor_phone'', PStr ''0911000000''),
      (''guarantor_monthly_income'', PFloat 18000),
      (''credit_history'', PStr ''none''),
      (''cbe_account_number'', PStr ''1000123456789''),
      (''cbe_branch'', PStr ''Adama Main''),
      (''cbe_city'', PStr ''Adama''),
      (''mode_of_finance'', PStr ''ifb'')]"

definition sample_bad_kwargs :: kwargs where
  "sample_bad_kwargs = AList.update ''sex'' (PStr ''x'') (AList.delete ''first_name'' sample_kwargs)"

definition sample_empty_region :: kwargs where
  "sample_empty_region = AList.update ''region'' (PStr []) sample_kwargs"

text \<open>
  Two accepted submissions one millisecond apart, and the world after an admin has created
  two users on the local backend, starting from no files.
\<close>

definition sample_submissions :: "(kwargs \<times> nat \<times> nat) list" where
  "sample_submissions =
     [(sample_kwargs, 1700000000000, 5), (sample_kwargs, 1700000000001, 3)]"

definition sample_empty_world :: world where
  "sample_empty_world =
     \<lparr>files = Map.empty, users_table = [], applicants_table = [],
      session_state = \<lparr>session_user = Some boss, session_role = JStr ''collector''\<rparr>\<rparr>"

definition sample_two_users :: world where
  "sample_two_users =
     snd (admin_create_user_box sample_ext sample_local
            (snd (admin_create_user_box sample_ext sample_local sample_empty_world
                    ''first@edi.org'' ''collector'' ''secret1'' ''secret1'' ''$2b$12$salt'' (2 ^ 127)))
            ''second@edi.org'' ''collector'' ''secret2'' ''secret2'' ''$2b$12$salt'' 0)"

section \<open>Properties of the access guard\<close>

lemma py_lower_Nil_iff: "py_lower s = [] \<longleftrightarrow> s = []"
  by (simp add: py_lower_def)

lemma set_APP_ADMIN_EMAILS:
  "set (APP_ADMIN_EMAILS secret) = py_lower ` set (configured_allow_list secret)"
  by (auto simp: APP_ADMIN_EMAILS_def configured_allow_list_def)

lemma in_allow_list_iff:
  "in_allow_list secret email \<longleftrightarrow> email \<noteq> [] \<and> py_lower email \<in> set (APP_ADMIN_EMAILS secret)"
proof
  assume "in_allow_list secret email"
  then obtain e where e: "e \<in> set (configured_allow_list secret)" "py_lower e = py_lower email"
    by (auto simp: in_allow_list_def)
  from e(1) have "e \<noteq> []"
    by (simp add: configured_allow_list_def)
  with e(2) have "email \<noteq> []"
    using py_lower_Nil_iff by metis
  moreover from e have "py_lower email \<in> set (APP_ADMIN_EMAILS secret)"
    unfolding set_APP_ADMIN_EMAILS by (metis imageI)
  ultimately show "email \<noteq> [] \<and> py_lower email \<in> set (APP_ADMIN_EMAILS secret)"
    by simp
next
  assume "email \<noteq> [] \<and> py_lower email \<in> set (APP_ADMIN_EMAILS secret)"
  then show "in_allow_list secret email"
    unfolding set_APP_ADMIN_EMAILS in_allow_list_def by force
qed

text \<open>
  Claim C6. For every configured allow-list, session and email, \<open>is_admin\<close> returns true
  exactly when the email is in the configured allow-list, compared without regard to letter
  case, or the session role is \<^verbatim>\<open>admin\<close>.
\<close>

theorem is_admin_iff_allow_list_or_session_admin:
  "is_admin secret st email \<longleftrightarrow> in_allow_list secret email \<or> session_role st = JStr ''admin''"
  by (simp add: is_admin_def in_allow_list_iff)

theorem is_admin_iff_witness:
  "is_admin ''Boss@edi.org , ops@edi.org'' \<lparr>session_user = None, session_role = JStr ''collector''\<rparr> ''boss@EDI.org''
   \<and> in_allow_list ''Boss@edi.org , ops@edi.org'' ''boss@EDI.org''
   \<and> \<not> is_admin ''Boss@edi.org , ops@edi.org'' \<lparr>session_user = None, session_role = JStr ''collector''\<rparr> ''eve@edi.org''"
proof -
  have a: "in_allow_list ''Boss@edi.org , ops@edi.org'' ''boss@EDI.org''"
    by code_simp
  have b: "\<not> in_allow_list ''Boss@edi.org , ops@edi.org'' ''eve@edi.org''"
    by code_simp
  show ?thesis
    using a b
      is_admin_iff_allow_list_or_session_admin
        [of "''Boss@edi.org , ops@edi.org''" "\<lparr>session_user = None, session_role = JStr ''collector''\<rparr>" "''boss@EDI.org''"]
      is_admin_iff_allow_list_or_session_admin
        [of "''Boss@edi.org , ops@edi.org''" "\<lparr>session_user = None, session_role = JStr ''collector''\<rparr>" "''eve@edi.org''"]
    by simp
qed

section \<open>Properties of the local line store\<close>

lemma universal_newlines_id: "CR \<notin> set s \<Longrightarrow> universal_newlines s = s"
  by (induction s rule: universal_newlines.induct) auto

lemma universal_newlines_append:
  "s = [] \<or> last s \<noteq> CR \<Longrightarrow> universal_newlines (s @ t) = universal_newlines s @ universal_newlines t"
proof (induction s rule: universal_newlines.induct)
  case 1
  then show ?case by simp
next
  case (2 c)
  then show ?case by (cases t) auto
next
  case (3 c d cs)
  then show ?case by (auto split: if_splits)
qed

lemma universal_newlines_last:
  "s \<noteq> [] \<Longrightarrow> last s = LF \<Longrightarrow> universal_newlines s \<noteq> [] \<and> last (universal_newlines s) = LF"
  by (induction s rule: universal_newlines.induct) (auto simp: LF_def CR_def split: if_splits)

lemma readlines_Nil_iff: "readlines s = [] \<longleftrightarrow> s = []"
  by (cases s) (auto split: list.splits)

lemma readlines_append:
  "s = [] \<or> last s = LF \<Longrightarrow> readlines (s @ t) = readlines s @ readlines t"
proof (induction s)
  case Nil
  then show ?case by simp
next
  case (Cons c s)
  show ?case
  proof (cases "s = []")
    case True
    with Cons.prems show ?thesis by simp
  next
    case False
    with Cons.prems have l: "last s = LF" by simp
    with Cons.IH have ih: "readlines (s @ t) = readlines s @ readlines t" by simp
    from False have "readlines s \<noteq> []" by (simp add: readlines_Nil_iff)
    then show ?thesis using ih by (auto split: list.splits)
  qed
qed

lemma readlines_single: "LF \<notin> set d \<Longrightarrow> readlines (d @ [LF]) = [d @ [LF]]"
  by (induction d) auto

lemma parse_lines_append:
  "parse_lines ext (a @ b) =
     (case parse_lines ext a of
        Inl e \<Rightarrow> Inl e
      | Inr ra \<Rightarrow> (case parse_lines ext b of Inl e \<Rightarrow> Inl e | Inr rb \<Rightarrow> Inr (ra @ rb)))"
  by (induction a) (auto split: sum.splits option.splits)

lemma py_strip_Nil_iff: "py_strip s = [] \<longleftrightarrow> (\<forall>c \<in> set s. py_isspace c)"
proof -
  let ?d = "dropWhile py_isspace s"
  have "py_strip s = [] \<longleftrightarrow> (\<forall>c \<in> set ?d. py_isspace c)"
    by (simp add: py_strip_def dropWhile_eq_Nil_conv)
  also have "\<dots> \<longleftrightarrow> ?d = []"
  proof
    assume a: "\<forall>c \<in> set ?d. py_isspace c"
    show "?d = []"
    proof (rule ccontr)
      assume n: "?d \<noteq> []"
      then have "\<not> py_isspace (hd ?d)" by (rule hd_dropWhile)
      moreover from n have "hd ?d \<in> set ?d" by (rule hd_in_set)
      ultimately show False using a by blast
    qed
  next
    assume e: "?d = []"
    show "\<forall>c \<in> set ?d. py_isspace c"
      unfolding e by simp
  qed
  also have "\<dots> \<longleftrightarrow> (\<forall>c \<in> set s. py_isspace c)"
    by (simp add: dropWhile_eq_Nil_conv)
  finally show ?thesis .
qed

lemma LF_neq_CR: "LF \<noteq> CR"
  by (simp add: LF_def CR_def)

lemma parse_line_contract:
  assumes "json_contract ext r"
  shows "parse_lines ext (readlines (universal_newlines (json_dumps ext r @ [LF]))) = Inr [r]"
proof -
  from assms have nocr: "CR \<notin> set (json_dumps ext r @ [LF])"
    using LF_neq_CR by (auto simp: json_contract_def)
  from assms have nolf: "LF \<notin> set (json_dumps ext r)"
    by (simp add: json_contract_def)
  from assms have "\<not> (\<forall>c \<in> set (json_dumps ext r @ [LF]). py_isspace c)"
    by (auto simp: json_contract_def)
  then have ns: "py_strip (json_dumps ext r @ [LF]) \<noteq> []"
    by (simp only: py_strip_Nil_iff not_False_eq_True)
  from assms have ld: "json_loads ext (json_dumps ext r @ [LF]) = Some r"
    by (simp add: json_contract_def)
  show ?thesis
    by (simp only: universal_newlines_id [OF nocr] readlines_single [OF nolf])
       (simp add: ns ld)
qed

lemma load_after_append:
  assumes s: "s = [] \<or> last s = LF"
    and old: "parse_lines ext (readlines (universal_newlines s)) = Inr rs"
    and r: "json_contract ext r"
  shows "parse_lines ext (readlines (universal_newlines (s @ json_dumps ext r @ [LF]))) = Inr (rs @ [r])"
proof -
  from s have a: "s = [] \<or> last s \<noteq> CR"
    using LF_neq_CR by auto
  from s have b: "universal_newlines s = [] \<or> last (universal_newlines s) = LF"
    using universal_newlines_last by (cases "s = []") auto
  show ?thesis
    by (simp only: universal_newlines_append [OF a] readlines_append [OF b] parse_lines_append
        old parse_line_contract [OF r]) simp
qed

text \<open>
  Claim C10. Let the file at \<open>path\<close> be absent or end with a newline (as every file that
  \<open>save_jsonl\<close> has written does) and let \<open>load_jsonl\<close> read the records \<open>rs\<close> from it.
  Then for every dictionary \<open>r\<close> that the JSON library prints on one line and reads
  back, saving \<open>r\<close> and loading again returns \<open>rs\<close> with \<open>r\<close> appended at the end: no
  earlier record is altered or removed.
\<close>

theorem save_then_load_appends:
  assumes "load_jsonl ext path w = Inr rs"
    and "ends_with_newline w path"
    and "json_contract ext r"
  shows "load_jsonl ext path (save_jsonl ext path r w) = Inr (rs @ [r])"
proof (cases "files w path")
  case None
  with assms(1) have "rs = []" by (simp add: load_jsonl_def)
  with None show ?thesis
    using load_after_append [of "[]" ext "[]" r] assms(3)
    by (simp add: load_jsonl_def save_jsonl_def)
next
  case (Some s)
  with assms(1) have old: "parse_lines ext (readlines (universal_newlines s)) = Inr rs"
    by (simp add: load_jsonl_def)
  from Some assms(2) have "s = [] \<or> last s = LF"
    by (simp add: ends_with_newline_def)
  from load_after_append [OF this old assms(3)] Some show ?thesis
    by (simp add: load_jsonl_def save_jsonl_def)
qed

theorem save_then_load_witness:
  "load_jsonl sample_ext ''data/applicants.jsonl'' (sample_world None) = Inr [sample_applicant]
   \<and> ends_with_newline (sample_world None) ''data/applicants.jsonl''
   \<and> json_contract sample_ext sample_applicant2
   \<and> load_jsonl sample_ext ''data/applicants.jsonl''
        (save_jsonl sample_ext ''data/applicants.jsonl'' sample_applicant2 (sample_world None))
      = Inr [sample_applicant, sample_applicant2]"
proof -
  have a: "load_jsonl sample_ext ''data/applicants.jsonl'' (sample_world None) = Inr [sample_applicant]"
    by code_simp
  have b: "ends_with_newline (sample_world None) ''data/applicants.jsonl''"
    by code_simp
  have c: "json_contract sample_ext sample_applicant2"
    by code_simp
  from save_then_load_appends [OF a b c] a b c show ?thesis
    by simp
qed

lemma save_jsonl_ends_with_newline: "ends_with_newline (save_jsonl ext path r w) path"
  by (simp add: ends_with_newline_def save_jsonl_def)

lemma save_jsonl_other_file:
  "p \<noteq> path \<Longrightarrow> files (save_jsonl ext path r w) p = files w p"
  by (simp add: save_jsonl_def)

lemma load_jsonl_text:
  "\<forall>r \<in> set rs. json_contract ext r \<Longrightarrow>
   parse_lines ext (readlines (universal_newlines (jsonl_text ext rs))) = Inr rs"
proof (induction rs rule: rev_induct)
  case Nil
  then show ?case by (simp add: jsonl_text_def)
next
  case (snoc r rs)
  have e: "jsonl_text ext rs = [] \<or> last (jsonl_text ext rs) = LF"
    by (induction rs rule: rev_induct) (auto simp: jsonl_text_def)
  from snoc have "parse_lines ext (readlines (universal_newlines (jsonl_text ext rs))) = Inr rs"
    by simp
  from load_after_append [OF e this, of r] snoc.prems show ?case
    by (simp add: jsonl_text_def)
qed

section \<open>Properties of login\<close>

lemma local_match_filter:
  "local_match email rs = Inr ms \<Longrightarrow>
   ms = filter (\<lambda>r. \<exists>e. map_of r ''email'' = Some (JStr e) \<and> py_lower e = py_lower email) rs"
  by (induction rs arbitrary: ms) (auto split: option.splits json.splits sum.splits if_splits)

lemma login_rows_local:
  assumes "\<not> supabase cfg" and "load_jsonl ext ''data/users.jsonl'' w = Inr rs"
    and "login_rows ext cfg w email = Inr ms"
  shows "ms = filter (\<lambda>r. \<exists>e. map_of r ''email'' = Some (JStr e) \<and> py_lower e = py_lower email) rs"
  using assms by (simp add: login_rows_def local_match_filter)

lemma login_success_session:
  assumes "login_rows ext cfg w email = Inr (u # us)"
    and "map_of u ''password_hash'' = Some (JStr h)"
    and "check_pwd ext password h = Some True"
  shows "login_box ext cfg w email password rnd
           = (St_rerun,
              w\<lparr>session_state :=
                  \<lparr>session_user = Some
                     \<lparr>user_email = email,
                      user_id = (case map_of u ''id'' of Some i \<Rightarrow> i | None \<Rightarrow> JStr (uuid4 rnd))\<rparr>,
                   session_role = (case map_of u ''role'' of
                                     Some r \<Rightarrow> r
                                   | None \<Rightarrow> JStr ''collector'')\<rparr>\<rparr>)"
  using assms by (simp add: login_box_def)

text \<open>
  Claim C7, evaluated where the code departs from it. A user is stored with the email
  \<^verbatim>\<open>amina@edi.org\<close> (user creation stores emails lower-cased). Signing in as
  \<^verbatim>\<open>Amina@EDI.org\<close> with the right password finds the user on the local backend, which
  lower-cases both sides (line 168), and establishes the session with identifier, email and
  role; on the remote backend the filter of line 165 compares the text as typed, no row
  matches, and the outcome is \<^verbatim>\<open>User not found\<close> with no session.
\<close>

theorem login_remote_lookup_is_case_sensitive:
  "login_box sample_ext sample_service (sample_world None) ''Amina@EDI.org'' ''secret1'' 0
     = (St_error ''User not found'', sample_world None)
   \<and> login_box sample_ext sample_local (sample_world None) ''Amina@EDI.org'' ''secret1'' 0
     = (St_rerun,
        (sample_world None)\<lparr>session_state :=
           \<lparr>session_user = Some \<lparr>user_email = ''Amina@EDI.org'', user_id = JStr ''u1''\<rparr>,
            session_role = JStr ''collector''\<rparr>\<rparr>)"
proof -
  have a: "login_rows sample_ext sample_service (sample_world None) ''Amina@EDI.org'' = Inr []"
    by code_simp
  have b: "login_rows sample_ext sample_local (sample_world None) ''Amina@EDI.org'' = Inr [sample_user]"
    by code_simp
  have c: "map_of sample_user ''password_hash'' = Some (JStr (sample_hashpw ''secret1'' ''$2b$12$salt''))"
    "check_pwd sample_ext ''secret1'' (sample_hashpw ''secret1'' ''$2b$12$salt'') = Some True"
    "map_of sample_user ''id'' = Some (JStr ''u1'')"
    "map_of sample_user ''role'' = Some (JStr ''collector'')"
    by code_simp+
  show ?thesis
    by (simp add: login_box_def a b c)
qed

text \<open>
  Claim C8, as amended. The two failures are reported with different messages: when no row
  matches the email the outcome is \<^verbatim>\<open>User not found\<close>, and when the first matching row's
  hash rejects the password it is \<^verbatim>\<open>Incorrect password\<close>. In both cases the world, the
  session included, is left as it was.
\<close>

theorem login_failures_distinguished:
  "(login_rows ext cfg w email = Inr [] \<longrightarrow>
      login_box ext cfg w email password rnd = (St_error ''User not found'', w))
   \<and> (\<forall>u us h. login_rows ext cfg w email = Inr (u # us)
         \<and> map_of u ''password_hash'' = Some (JStr h)
         \<and> check_pwd ext password h = Some False \<longrightarrow>
      login_box ext cfg w email password rnd = (St_error ''Incorrect password'', w))"
  by (auto simp: login_box_def)

theorem login_failures_witness:
  "login_rows sample_ext sample_local (sample_world None) ''nobody@edi.org'' = Inr []
   \<and> login_box sample_ext sample_local (sample_world None) ''nobody@edi.org'' ''secret1'' 0
       = (St_error ''User not found'', sample_world None)
   \<and> login_rows sample_ext sample_local (sample_world None) ''Amina@EDI.org'' = Inr [sample_user]
   \<and> map_of sample_user ''password_hash'' = Some (JStr (sample_hashpw ''secret1'' ''$2b$12$salt''))
   \<and> check_pwd sample_ext ''wrong-password'' (sample_hashpw ''secret1'' ''$2b$12$salt'') = Some False
   \<and> login_box sample_ext sample_local (sample_world None) ''Amina@EDI.org'' ''wrong-password'' 0
       = (St_error ''Incorrect password'', sample_world None)"
proof -
  have a: "login_rows sample_ext sample_local (sample_world None) ''nobody@edi.org'' = Inr []"
    by code_simp
  have b: "login_rows sample_ext sample_local (sample_world None) ''Amina@EDI.org'' = Inr [sample_user]"
    by code_simp
  have c: "map_of sample_user ''password_hash'' = Some (JStr (sample_hashpw ''secret1'' ''$2b$12$salt''))"
    by code_simp
  have d: "check_pwd sample_ext ''wrong-password'' (sample_hashpw ''secret1'' ''$2b$12$salt'') = Some False"
    by code_simp
  from login_failures_distinguished
         [of sample_ext sample_local "sample_world None" "''nobody@edi.org''" "''secret1''" 0]
       login_failures_distinguished
         [of sample_ext sample_local "sample_world None" "''Amina@EDI.org''" "''wrong-password''" 0]
       a b c d
  show ?thesis by simp
qed

text \<open>
  The claim as stated fails: on the same store, an unknown email and a known email with a
  wrong password are answered differently.
\<close>

theorem login_failures_counterexample:
  "fst (login_box sample_ext sample_service (sample_world None) ''nobody@edi.org'' ''secret1'' 0)
   \<noteq> fst (login_box sample_ext sample_service (sample_world None) ''amina@edi.org'' ''wrong-password'' 0)"
  by code_simp


section \<open>Properties of user creation\<close>

text \<open>
  Claim C9. If the caller is not an admin, the outcome is the authorization error
  \<^verbatim>\<open>Admins only\<close> and the world is unchanged, so no user is added. If the caller is an admin
  and the two passwords differ or are shorter than 6 characters, the outcome is an error and
  the world is unchanged. If the caller is an admin and the passwords match and have at
  least 6 characters, exactly one record is added to the users (a row of the remote table
  with the service-role key, a line of \<^verbatim>\<open>data/users.jsonl\<close> otherwise), made of the
  lower-cased email, the hash of the password under the fresh salt, the role and, locally,
  a fresh identifier: the password enters the record only through the hash.
\<close>

theorem create_user_gated:
  "(\<not> is_admin (ADMIN_EMAILS cfg) (session_state w) (caller_email w) \<longrightarrow>
      admin_create_user_box ext cfg w email role_sel pwd1 pwd2 salt rnd
        = (St_error ''Admins only'', w))
   \<and> (is_admin (ADMIN_EMAILS cfg) (session_state w) (caller_email w)
        \<and> (pwd1 \<noteq> pwd2 \<or> length pwd1 < 6) \<longrightarrow>
      admin_create_user_box ext cfg w email role_sel pwd1 pwd2 salt rnd
        = (St_error ''Passwords must match and be at least 6 chars'', w))
   \<and> (is_admin (ADMIN_EMAILS cfg) (session_state w) (caller_email w)
        \<and> pwd1 = pwd2 \<and> 6 \<le> length pwd1 \<longrightarrow>
      admin_create_user_box ext cfg w email role_sel pwd1 pwd2 salt rnd
        = (St_success ''User created'',
           if supabase_admin cfg then
             w\<lparr>users_table := users_table w @
                 [[(''email'', JStr (py_lower email)),
                   (''password_hash'', JStr (bcrypt_hashpw ext pwd1 salt)),
                   (''role'', JStr role_sel)]]\<rparr>
           else
             w\<lparr>files := (files w)(''data/users.jsonl'' \<mapsto>
                 (case files w ''data/users.jsonl'' of None \<Rightarrow> [] | Some s \<Rightarrow> s)
                 @ json_dumps ext
                     [(''email'', JStr (py_lower email)),
                      (''password_hash'', JStr (bcrypt_hashpw ext pwd1 salt)),
                      (''role'', JStr role_sel),
                      (''id'', JStr (uuid4 rnd))]
                 @ [LF])\<rparr>))"
  by (simp add: admin_create_user_box_def insert_row_def save_jsonl_def hash_pwd_def Let_def)

theorem create_user_gated_witness:
  "\<not> is_admin (ADMIN_EMAILS sample_local) (session_state (sample_world (Some amina)))
        (caller_email (sample_world (Some amina)))
   \<and> admin_create_user_box sample_ext sample_local (sample_world (Some amina))
        ''New@edi.org'' ''collector'' ''secret2'' ''secret2'' ''$2b$12$pepper'' 7
      = (St_error ''Admins only'', sample_world (Some amina))
   \<and> is_admin (ADMIN_EMAILS sample_local) (session_state (sample_world (Some boss)))
        (caller_email (sample_world (Some boss)))
   \<and> admin_create_user_box sample_ext sample_local (sample_world (Some boss))
        ''New@edi.org'' ''collector'' ''short'' ''short'' ''$2b$12$pepper'' 7
      = (St_error ''Passwords must match and be at least 6 chars'', sample_world (Some boss))
   \<and> fst (admin_create_user_box sample_ext sample_local (sample_world (Some boss))
        ''New@edi.org'' ''collector'' ''secret2'' ''secret2'' ''$2b$12$pepper'' 7)
      = St_success ''User created''
   \<and> load_jsonl sample_ext ''data/users.jsonl''
        (snd (admin_create_user_box sample_ext sample_local (sample_world (Some boss))
           ''New@edi.org'' ''collector'' ''secret2'' ''secret2'' ''$2b$12$pepper'' 7))
      = Inr [sample_user,
             [(''email'', JStr ''new@edi.org''),
              (''password_hash'', JStr ''$2b$12$pepper$2terces''),
              (''role'', JStr ''collector''),
              (''id'', JStr ''00000000-0000-4000-8000-000000000007'')]]"
proof -
  have a: "\<not> is_admin (ADMIN_EMAILS sample_local) (session_state (sample_world (Some amina)))
        (caller_email (sample_world (Some amina)))"
    by code_simp
  have b: "is_admin (ADMIN_EMAILS sample_local) (session_state (sample_world (Some boss)))
        (caller_email (sample_world (Some boss)))"
    by code_simp
  have c: "length ''short'' < 6" "(6::nat) \<le> length ''secret2''" "\<not> supabase_admin sample_local"
    by code_simp+
  have d: "load_jsonl sample_ext ''data/users.jsonl''
        ((sample_world (Some boss))\<lparr>files := (files (sample_world (Some boss)))(''data/users.jsonl'' \<mapsto>
                 (case files (sample_world (Some boss)) ''data/users.jsonl'' of None \<Rightarrow> [] | Some s \<Rightarrow> s)
                 @ json_dumps sample_ext
                     [(''email'', JStr (py_lower ''New@edi.org'')),
                      (''password_hash'', JStr (bcrypt_hashpw sample_ext ''secret2'' ''$2b$12$pepper'')),
                      (''role'', JStr ''collector''),
                      (''id'', JStr (uuid4 7))]
                 @ [LF])\<rparr>)
      = Inr [sample_user,
             [(''email'', JStr ''new@edi.org''),
              (''password_hash'', JStr ''$2b$12$pepper$2terces''),
              (''role'', JStr ''collector''),
              (''id'', JStr ''00000000-0000-4000-8000-000000000007'')]]"
    by code_simp
  from create_user_gated [of sample_local "sample_world (Some amina)" sample_ext
         "''New@edi.org''" "''collector''" "''secret2''" "''secret2''" "''$2b$12$pepper''" 7]
       create_user_gated [of sample_local "sample_world (Some boss)" sample_ext
         "''New@edi.org''" "''collector''" "''short''" "''short''" "''$2b$12$pepper''" 7]
       create_user_gated [of sample_local "sample_world (Some boss)" sample_ext
         "''New@edi.org''" "''collector''" "''secret2''" "''secret2''" "''$2b$12$pepper''" 7]
       a b c d
  show ?thesis by simp
qed


section \<open>Properties of the admin update\<close>

text \<open>
  With the service-role key, or on the local backend, the update followed by a fresh
  listing returns the listed rows with \<^verbatim>\<open>credit_history\<close> replaced in the chosen row and
  nothing else changed. Remotely this needs the identifiers to be pairwise distinct;
  locally it needs the rows to survive printing and reading.
\<close>

lemma update_eq_nth:
  assumes "distinct (map (\<lambda>r. map_of r col) tbl)" and "idx < length tbl"
    and "map_of (tbl ! idx) col = Some i"
  shows "update_eq tbl col2 x col i = tbl[idx := AList.update col2 x (tbl ! idx)]"
proof (rule nth_equalityI)
  show "length (update_eq tbl col2 x col i) = length (tbl[idx := AList.update col2 x (tbl ! idx)])"
    by (simp add: update_eq_def)
next
  fix j
  assume "j < length (update_eq tbl col2 x col i)"
  then have j: "j < length tbl" by (simp add: update_eq_def)
  show "update_eq tbl col2 x col i ! j = tbl[idx := AList.update col2 x (tbl ! idx)] ! j"
  proof (cases "j = idx")
    case True
    with assms j show ?thesis by (simp add: update_eq_def)
  next
    case False
    with assms j have "map_of (tbl ! j) col \<noteq> Some i"
      by (metis (mono_tags, lifting) distinct_conv_nth length_map nth_map)
    with False j show ?thesis by (simp add: update_eq_def)
  qed
qed

lemma admin_update_coherent_backends:
  assumes adm: "is_admin (ADMIN_EMAILS cfg) (session_state w) (caller_email w)"
    and cfg: "supabase_admin cfg \<or> \<not> supabase cfg"
    and rows: "load_applicants ext cfg w = Inr rows"
    and idx: "idx < length rows" "\<not> df_empty rows"
    and ids: "supabase_admin cfg \<longrightarrow>
                distinct (map (\<lambda>r. map_of r ''id'') rows) \<and> map_of (rows ! idx) ''id'' \<noteq> None"
    and json: "\<not> supabase cfg \<longrightarrow>
                (\<forall>r \<in> set (rows[idx := AList.update ''credit_history'' (JStr x) (rows ! idx)]).
                    json_contract ext r)"
  shows "load_applicants ext cfg (snd (admin_page_update ext cfg w idx x))
           = Inr (rows[idx := AList.update ''credit_history'' (JStr x) (rows ! idx)])"
proof (cases "supabase_admin cfg")
  case True
  with rows have t: "applicants_table w = rows" by (simp add: load_applicants_def)
  from True ids obtain i where i: "map_of (rows ! idx) ''id'' = Some i" by auto
  from True ids have "distinct (map (\<lambda>r. map_of r ''id'') rows)" by simp
  from update_eq_nth [OF this idx(1) i] True adm rows idx i t show ?thesis
    by (simp add: admin_page_update_def load_applicants_def)
next
  case False
  with cfg have l: "\<not> supabase cfg" by simp
  with json have "\<forall>r \<in> set (rows[idx := AList.update ''credit_history'' (JStr x) (rows ! idx)]).
                    json_contract ext r" by simp
  from load_jsonl_text [OF this] False l adm rows idx show ?thesis
    by (simp add: admin_page_update_def load_applicants_def load_jsonl_def)
qed

lemma alist_update_other:
  "k \<noteq> ''credit_history'' \<Longrightarrow> map_of (AList.update ''credit_history'' v r) k = map_of r k"
  by (simp add: update_conv')

text \<open>
  Claim C5, evaluated where the code departs from it. With the remote backend configured
  by the anonymous key only, the page lists the remote table (lines 350-352), but the update
  takes the branch that rewrites the local file (lines 369-375): it reports \<^verbatim>\<open>Updated\<close>, and
  the record read back from the store still has its old \<^verbatim>\<open>credit_history\<close>.
\<close>

theorem admin_update_lost_without_service_key:
  "fst (admin_page_update sample_ext sample_anon (sample_world (Some boss)) 0 ''good'')
     = St_success ''Updated''
   \<and> load_applicants sample_ext sample_anon
        (snd (admin_page_update sample_ext sample_anon (sample_world (Some boss)) 0 ''good''))
     = Inr [sample_applicant]
   \<and> map_of sample_applicant ''credit_history'' = Some (JStr ''none'')"
proof -
  have a: "is_admin (ADMIN_EMAILS sample_anon) (session_state (sample_world (Some boss)))
        (caller_email (sample_world (Some boss)))"
    by code_simp
  have b: "supabase sample_anon" "\<not> supabase_admin sample_anon"
    by code_simp+
  have c: "applicants_table (sample_world (Some boss)) = [sample_applicant]"
    by (simp add: sample_world_def)
  have d: "\<not> df_empty [sample_applicant]" "map_of sample_applicant ''credit_history'' = Some (JStr ''none'')"
    by code_simp+
  show ?thesis
    by (simp add: admin_page_update_def load_applicants_def a b c d)
qed

section \<open>Properties of the schema validator\<close>

lemma validate_type_Inr: "validate_type a v = Inr v' \<Longrightarrow> v' = v"
  by (induction a) (auto split: pyval.splits if_splits)

lemma value_ok_validate: "value_ok a v \<Longrightarrow> validate_type a v = Inr v"
  by (induction a) (auto split: pyval.splits)

lemma validate_type_None_required: "\<not> has_default a \<Longrightarrow> validate_type a PNone = Inl Type_error"
  by (cases a) auto

lemma validators_accept:
  "validators n = Some check \<Longrightarrow> enumeration n = Some xs \<Longrightarrow> v \<in> set (map PStr xs) \<Longrightarrow> check v = Inr v"
  by (auto simp: validators_def enumeration_def v1_def v2_def v3_def v4_def v5_def split: if_splits)

lemma validators_enumerated: "validators n = Some check \<Longrightarrow> enumeration n \<noteq> None"
  by (auto simp: validators_def enumeration_def split: if_splits)

lemma enumerated_names:
  "enumeration n = Some xs \<Longrightarrow>
   n = ''sex'' \<or> n = ''enterprise_category'' \<or> n = ''ownership_form'' \<or> n = ''business_sector''
   \<or> n = ''business_premise'' \<or> n = ''mode_of_finance''"
  by (simp add: enumeration_def split: if_splits)

lemma v1_rejects:
  assumes "enumeration n = Some xs" and "n = ''enterprise_category''" and "v \<notin> set (map PStr xs)"
  shows "\<exists>check msg. validators n = Some check \<and> check v = Inl msg"
proof -
  from assms(1,2) have "xs = [''micro'', ''small'', ''medium'', ''startup'']"
    by (simp add: enumeration_def)
  with assms(3) have "v1 v = Inl ''Invalid enterprise category''"
    by (simp add: v1_def)
  moreover from assms(2) have "validators n = Some v1"
    by (simp add: validators_def)
  ultimately show ?thesis by simp
qed

lemma v2_rejects:
  assumes "enumeration n = Some xs" and "n = ''ownership_form''" and "v \<notin> set (map PStr xs)"
  shows "\<exists>check msg. validators n = Some check \<and> check v = Inl msg"
proof -
  from assms(1,2) have "xs = [''soleproprietorship'', ''partnership'', ''plc'']"
    by (simp add: enumeration_def)
  with assms(3) have "v2 v = Inl ''Invalid ownership form''"
    by (simp add: v2_def)
  moreover from assms(2) have "validators n = Some v2"
    by (simp add: validators_def)
  ultimately show ?thesis by simp
qed

lemma v3_rejects:
  assumes "enumeration n = Some xs" and "n = ''business_sector''" and "v \<notin> set (map PStr xs)"
  shows "\<exists>check msg. validators n = Some check \<and> check v = Inl msg"
proof -
  from assms(1,2) have "xs = [''manufacturing'', ''construction'', ''agriculture'', ''mining'',
       ''service'', ''others'']"
    by (simp add: enumeration_def)
  with assms(3) have "v3 v = Inl ''Invalid business sector''"
    by (simp add: v3_def)
  moreover from assms(2) have "validators n = Some v3"
    by (simp add: validators_def)
  ultimately show ?thesis by simp
qed

lemma v4_rejects:
  assumes "enumeration n = Some xs" and "n = ''business_premise''" and "v \<notin> set (map PStr xs)"
  shows "\<exists>check msg. validators n = Some check \<and> check v = Inl msg"
proof -
  from assms(1,2) have "xs = [''rented'', ''applicant_owned'', ''government'']"
    by (simp add: enumeration_def)
  with assms(3) have "v4 v = Inl ''Invalid business premise''"
    by (simp add: v4_def)
  moreover from assms(2) have "validators n = Some v4"
    by (simp add: validators_def)
  ultimately show ?thesis by simp
qed

lemma v5_rejects:
  assumes "enumeration n = Some xs" and "n = ''mode_of_finance''" and "v \<notin> set (map PStr xs)"
  shows "\<exists>check msg. validators n = Some check \<and> check v = Inl msg"
proof -
  from assms(1,2) have "xs = [''conventional'', ''ifb'']"
    by (simp add: enumeration_def)
  with assms(3) have "v5 v = Inl ''Invalid mode of finance''"
    by (simp add: v5_def)
  moreover from assms(2) have "validators n = Some v5"
    by (simp add: validators_def)
  ultimately show ?thesis by simp
qed

lemma validators_reject:
  assumes "enumeration n = Some xs" and "n \<noteq> ''sex''" and "v \<notin> set (map PStr xs)"
  shows "\<exists>check msg. validators n = Some check \<and> check v = Inl msg"
proof -
  from enumerated_names [OF assms(1)] assms(2)
  have "n = ''enterprise_category'' \<or> n = ''ownership_form'' \<or> n = ''business_sector''
        \<or> n = ''business_premise'' \<or> n = ''mode_of_finance''"
    by simp
  then show ?thesis
  proof (elim disjE)
    assume "n = ''enterprise_category''"
    from v1_rejects [OF assms(1) this assms(3)] show ?thesis .
  next
    assume "n = ''ownership_form''"
    from v2_rejects [OF assms(1) this assms(3)] show ?thesis .
  next
    assume "n = ''business_sector''"
    from v3_rejects [OF assms(1) this assms(3)] show ?thesis .
  next
    assume "n = ''business_premise''"
    from v4_rejects [OF assms(1) this assms(3)] show ?thesis .
  next
    assume "n = ''mode_of_finance''"
    from v5_rejects [OF assms(1) this assms(3)] show ?thesis .
  qed
qed

lemma enumeration_None_validators: "enumeration n = None \<Longrightarrow> validators n = None"
  by (auto simp: validators_def enumeration_def split: if_splits)

lemma enumeration_nonempty: "enumeration n = Some xs \<Longrightarrow> PStr [] \<notin> set (map PStr xs)"
  by (auto simp: enumeration_def split: if_splits)

lemma field_ok_validate:
  assumes "field_ok kw n a"
  shows "validate_field kw n a = Inr (case map_of kw n of None \<Rightarrow> PNone | Some v \<Rightarrow> v)"
proof (cases "map_of kw n")
  case None
  with assms show ?thesis by (simp add: field_ok_def validate_field_def)
next
  case (Some v)
  with assms have wt: "value_ok a v"
    and en: "case enumeration n of None \<Rightarrow> True | Some xs \<Rightarrow> v \<in> set (map PStr xs)"
    by (simp_all add: field_ok_def)
  have ty: "validate_type a v = Inr v" using wt by (rule value_ok_validate)
  show ?thesis
  proof (cases "validators n")
    case None
    with Some ty show ?thesis by (simp add: validate_field_def)
  next
    case (Some check)
    then obtain xs where xs: "enumeration n = Some xs"
      using validators_enumerated by blast
    with en have "v \<in> set (map PStr xs)" by simp
    from validators_accept [OF Some xs this] Some ty \<open>map_of kw n = Some v\<close> show ?thesis
      by (simp add: validate_field_def)
  qed
qed

lemma errors_of_names:
  "n \<in> fst ` set (errors_of fs kw) \<longleftrightarrow> (\<exists>a e. (n, a) \<in> set fs \<and> validate_field kw n a = Inl e)"
  by (induction fs kw rule: errors_of.induct) (auto split: sum.splits)

lemma all_valid_no_errors:
  "\<forall>(n, a) \<in> set fs. validate_field kw n a = Inr (f n) \<Longrightarrow>
   errors_of fs kw = [] \<and> values_of fs kw = map (\<lambda>(n, a). (n, f n)) fs"
  by (induction fs kw rule: errors_of.induct) auto

lemma map_of_tabulated:
  "n \<in> set (map fst fs) \<Longrightarrow> map_of (map (\<lambda>(n, a). (n, f n)) fs) n = Some (f n)"
  by (induction fs) auto

lemma sex_annotation: "map_of Applicant_fields ''sex'' = Some a \<Longrightarrow> a = TPattern [''m'', ''f'']"
  by (simp add: Applicant_fields_def)

lemma violated_in_errors:
  assumes "violated kw n"
  shows "n \<in> fst ` set (errors_of Applicant_fields kw)"
proof -
  from assms obtain a where a: "map_of Applicant_fields n = Some a"
    by (auto simp: violated_def split: option.splits)
  then have mem: "(n, a) \<in> set Applicant_fields" by (rule map_of_SomeD)
  from assms a consider
      (missing) "\<not> has_default a" "map_of kw n = None"
    | (none) "\<not> has_default a" "map_of kw n = Some PNone"
    | (enum) xs v where "enumeration n = Some xs" "map_of kw n = Some v" "v \<notin> set (map PStr xs)"
    by (auto simp: violated_def split: option.splits)
  then have "\<exists>e. validate_field kw n a = Inl e"
  proof cases
    case missing
    then show ?thesis by (simp add: validate_field_def)
  next
    case none
    then show ?thesis by (simp add: validate_field_def validate_type_None_required)
  next
    case enum
    show ?thesis
    proof (cases "validate_type a v")
      case (Inl e)
      with enum show ?thesis by (simp add: validate_field_def)
    next
      case (Inr v')
      then have v': "v' = v" by (rule validate_type_Inr)
      show ?thesis
      proof (cases "n = ''sex''")
        case True
        with a have "a = TPattern [''m'', ''f'']" using sex_annotation by simp
        with Inr enum True show ?thesis
          by (auto simp: enumeration_def split: pyval.splits if_splits)
      next
        case False
        from validators_reject [OF enum(1) False enum(3)] obtain check msg
          where "validators n = Some check" "check v = Inl msg" by blast
        with Inr v' enum show ?thesis by (simp add: validate_field_def)
      qed
    qed
  qed
  with mem show ?thesis unfolding errors_of_names by blast
qed

lemma distinct_field_names: "distinct (map fst Applicant_fields)"
  by code_simp

lemma field_annotation_unique:
  "(n, a) \<in> set Applicant_fields \<Longrightarrow> (n, a') \<in> set Applicant_fields \<Longrightarrow> a = a'"
  using distinct_field_names by (rule eq_key_imp_eq_value)

lemma enumerated_declared: "enumeration n = Some xs \<Longrightarrow> \<exists>a. map_of Applicant_fields n = Some a"
  by (auto simp: enumeration_def Applicant_fields_def split: if_splits)

text \<open>
  Claim C3. If every field of the keyword arguments satisfies its constraint (a required
  string is not empty, an enumerated field lies in its closed set, a date is a calendar
  date, counts and amounts are not negative), the validator accepts: it returns an instance
  with exactly the declared fields, and every field of the instance has the value that was
  passed in (\<^verbatim>\<open>None\<close> for an optional field that was omitted).
\<close>

theorem valid_submission_accepted_unchanged:
  assumes "satisfies_constraints kw"
  shows "\<exists>m. Applicant kw = Inr m
           \<and> map fst m = map fst Applicant_fields
           \<and> (\<forall>n \<in> set (map fst Applicant_fields).
                 map_of m n = Some (case map_of kw n of None \<Rightarrow> PNone | Some v \<Rightarrow> v))"
proof -
  let ?f = "\<lambda>n. case map_of kw n of None \<Rightarrow> PNone | Some v \<Rightarrow> v"
  let ?m = "map (\<lambda>(n, a). (n, ?f n)) Applicant_fields"
  from assms have "\<forall>(n, a) \<in> set Applicant_fields. field_ok kw n a"
    by (simp add: satisfies_constraints_def list_all_iff)
  then have "\<forall>(n, a) \<in> set Applicant_fields. validate_field kw n a = Inr (?f n)"
    using field_ok_validate by blast
  then have "errors_of Applicant_fields kw = []" "values_of Applicant_fields kw = ?m"
    using all_valid_no_errors [of Applicant_fields kw ?f] by simp_all
  then have a: "Applicant kw = Inr ?m"
    by (simp add: Applicant_def)
  have b: "map fst ?m = map fst Applicant_fields"
    by (simp add: case_prod_unfold)
  have c: "\<forall>n \<in> set (map fst Applicant_fields). map_of ?m n = Some (?f n)"
    using map_of_tabulated [of _ Applicant_fields ?f] by blast
  from a b c show ?thesis by blast
qed

theorem valid_submission_witness:
  "satisfies_constraints sample_kwargs
   \<and> (\<exists>m. Applicant sample_kwargs = Inr m
          \<and> map_of m ''credit_history'' = Some (PStr ''none'')
          \<and> map_of m ''date_of_birth'' = Some (PDate (Date 1990 1 1))
          \<and> map_of m ''trade'' = Some PNone)"
proof -
  have h: "satisfies_constraints sample_kwargs"
    by code_simp
  from valid_submission_accepted_unchanged [OF h] obtain m where
    m: "Applicant sample_kwargs = Inr m"
       "\<forall>n \<in> set (map fst Applicant_fields).
          map_of m n = Some (case map_of sample_kwargs n of None \<Rightarrow> PNone | Some v \<Rightarrow> v)"
    by auto
  have names: "''credit_history'' \<in> set (map fst Applicant_fields)"
    "''date_of_birth'' \<in> set (map fst Applicant_fields)"
    "''trade'' \<in> set (map fst Applicant_fields)"
    by (simp_all add: Applicant_fields_def)
  have vals: "map_of sample_kwargs ''credit_history'' = Some (PStr ''none'')"
    "map_of sample_kwargs ''date_of_birth'' = Some (PDate (Date 1990 1 1))"
    "map_of sample_kwargs ''trade'' = Some PNone"
    by (simp_all add: sample_kwargs_def)
  from m(2) names vals have
    "map_of m ''credit_history'' = Some (PStr ''none'')"
    "map_of m ''date_of_birth'' = Some (PDate (Date 1990 1 1))"
    "map_of m ''trade'' = Some PNone"
    by (metis option.simps(5))+
  with h m(1) show ?thesis by auto
qed

text \<open>
  Claim C2. If some field of the keyword arguments is violated (a required field is
  missing, or \<^verbatim>\<open>sex\<close>, \<^verbatim>\<open>enterprise_category\<close>, \<^verbatim>\<open>ownership_form\<close>, \<^verbatim>\<open>business_sector\<close>,
  \<^verbatim>\<open>business_premise\<close> or \<^verbatim>\<open>mode_of_finance\<close> is outside its closed set), the validator rejects
  with the list of the errors of all fields, every violated field is named in that list,
  and the collector page reports that list and leaves the world, both stores included, as it
  was.
\<close>

theorem violation_rejected_named_and_not_stored:
  assumes "violated kw n0"
  shows "Applicant kw = Inl (errors_of Applicant_fields kw)
         \<and> (\<forall>n. violated kw n \<longrightarrow> n \<in> fst ` set (errors_of Applicant_fields kw))
         \<and> collector_page ext cfg w kw now rnd = (St_invalid (errors_of Applicant_fields kw), w)"
proof -
  from assms have "n0 \<in> fst ` set (errors_of Applicant_fields kw)"
    by (rule violated_in_errors)
  then have "errors_of Applicant_fields kw \<noteq> []" by auto
  then have a: "Applicant kw = Inl (errors_of Applicant_fields kw)"
    by (simp add: Applicant_def)
  then have "collector_page ext cfg w kw now rnd = (St_invalid (errors_of Applicant_fields kw), w)"
    by (simp add: collector_page_def)
  with a violated_in_errors show ?thesis by blast
qed

theorem violation_witness:
  "violated sample_bad_kwargs ''sex''
   \<and> violated sample_bad_kwargs ''first_name''
   \<and> Applicant sample_bad_kwargs = Inl [(''first_name'', Missing), (''sex'', Pattern_mismatch)]
   \<and> collector_page sample_ext sample_local (sample_world (Some amina)) sample_bad_kwargs
         1700000000000 12345
       = (St_invalid [(''first_name'', Missing), (''sex'', Pattern_mismatch)],
          sample_world (Some amina))"
proof -
  have a: "violated sample_bad_kwargs ''sex''" "violated sample_bad_kwargs ''first_name''"
    by code_simp+
  have e: "errors_of Applicant_fields sample_bad_kwargs
             = [(''first_name'', Missing), (''sex'', Pattern_mismatch)]"
    by code_simp
  from violation_rejected_named_and_not_stored
         [OF a(1), of sample_ext sample_local "sample_world (Some amina)" 1700000000000 12345]
       a e
  show ?thesis by simp
qed

text \<open>
  Claim C1, as amended. The validator rejects whenever a required field is missing (omitted
  or \<^verbatim>\<open>None\<close>), and whenever \<^verbatim>\<open>sex\<close> or one of the five enumerated fields is the empty string.
  An empty string in any other required string field (such as \<^verbatim>\<open>region\<close>, \<^verbatim>\<open>first_name\<close> or
  \<^verbatim>\<open>credit_history\<close>) is not an error of that field.
\<close>

theorem empty_string_rejected_only_where_enumerated:
  "((n, a) \<in> set Applicant_fields \<and> \<not> has_default a
      \<and> (map_of kw n = None \<or> map_of kw n = Some PNone) \<longrightarrow> isl (Applicant kw))
   \<and> (enumeration n \<noteq> None \<and> map_of kw n = Some (PStr []) \<longrightarrow> isl (Applicant kw))
   \<and> ((n, TStr) \<in> set Applicant_fields \<and> enumeration n = None
      \<and> map_of kw n = Some (PStr []) \<longrightarrow> n \<notin> fst ` set (errors_of Applicant_fields kw))"
proof (intro conjI impI)
  assume h: "(n, a) \<in> set Applicant_fields \<and> \<not> has_default a
      \<and> (map_of kw n = None \<or> map_of kw n = Some PNone)"
  then have "\<exists>e. validate_field kw n a = Inl e"
    by (auto simp: validate_field_def validate_type_None_required)
  with h have "n \<in> fst ` set (errors_of Applicant_fields kw)"
    unfolding errors_of_names by blast
  then have "errors_of Applicant_fields kw \<noteq> []" by auto
  then show "isl (Applicant kw)" by (simp add: Applicant_def)
next
  assume h: "enumeration n \<noteq> None \<and> map_of kw n = Some (PStr [])"
  then obtain xs where xs: "enumeration n = Some xs" by auto
  then obtain a where "map_of Applicant_fields n = Some a"
    using enumerated_declared by blast
  with h xs enumeration_nonempty [OF xs] have "violated kw n"
    by (simp add: violated_def)
  then have "n \<in> fst ` set (errors_of Applicant_fields kw)"
    by (rule violated_in_errors)
  then have "errors_of Applicant_fields kw \<noteq> []" by auto
  then show "isl (Applicant kw)" by (simp add: Applicant_def)
next
  assume h: "(n, TStr) \<in> set Applicant_fields \<and> enumeration n = None
      \<and> map_of kw n = Some (PStr [])"
  show "n \<notin> fst ` set (errors_of Applicant_fields kw)"
  proof
    assume "n \<in> fst ` set (errors_of Applicant_fields kw)"
    then obtain a' e where a': "(n, a') \<in> set Applicant_fields" "validate_field kw n a' = Inl e"
      unfolding errors_of_names by blast
    with h have "a' = TStr" using field_annotation_unique by blast
    with a' h show False
      by (simp add: validate_field_def enumeration_None_validators)
  qed
qed


theorem empty_string_witness:
  "(''first_name'', TStr) \<in> set Applicant_fields
   \<and> \<not> has_default TStr
   \<and> map_of (AList.delete ''first_name'' sample_kwargs) ''first_name'' = None
   \<and> isl (Applicant (AList.delete ''first_name'' sample_kwargs))
   \<and> enumeration ''mode_of_finance'' \<noteq> None
   \<and> map_of (AList.update ''mode_of_finance'' (PStr []) sample_kwargs) ''mode_of_finance'' = Some (PStr [])
   \<and> isl (Applicant (AList.update ''mode_of_finance'' (PStr []) sample_kwargs))
   \<and> (''region'', TStr) \<in> set Applicant_fields
   \<and> enumeration ''region'' = None
   \<and> map_of sample_empty_region ''region'' = Some (PStr [])
   \<and> ''region'' \<notin> fst ` set (errors_of Applicant_fields sample_empty_region)"
proof -
  have a: "(''first_name'', TStr) \<in> set Applicant_fields" "\<not> has_default TStr"
    "map_of (AList.delete ''first_name'' sample_kwargs) ''first_name'' = None"
    by code_simp+
  have b: "enumeration ''mode_of_finance'' \<noteq> None"
    "map_of (AList.update ''mode_of_finance'' (PStr []) sample_kwargs) ''mode_of_finance'' = Some (PStr [])"
    by code_simp+
  have c: "(''region'', TStr) \<in> set Applicant_fields" "enumeration ''region'' = None"
    "map_of sample_empty_region ''region'' = Some (PStr [])"
    by code_simp+
  from empty_string_rejected_only_where_enumerated
         [of "''first_name''" TStr "AList.delete ''first_name'' sample_kwargs"]
       empty_string_rejected_only_where_enumerated
         [of "''mode_of_finance''" TStr "AList.update ''mode_of_finance'' (PStr []) sample_kwargs"]
       empty_string_rejected_only_where_enumerated
         [of "''region''" TStr sample_empty_region]
       a b c
  show ?thesis by simp
qed
text \<open>
  The claim as stated fails: the sample submission with an empty \<^verbatim>\<open>region\<close> is accepted.
\<close>

theorem empty_required_string_counterexample:
  "map_of sample_empty_region ''region'' = Some (PStr [])
   \<and> \<not> isl (Applicant sample_empty_region)"
  by code_simp

section \<open>Properties of the identifiers\<close>

lemma length_base32_fixed: "length (base32_fixed n x) = n"
  by (induction n arbitrary: x) auto

lemma crockford_sorted: "sorted_wrt (<) crockford"
  by code_simp

lemma crockford_mono: "i < j \<Longrightarrow> j < 32 \<Longrightarrow> crockford ! i < crockford ! j"
proof -
  assume a: "i < j" "j < 32"
  have "length crockford = 32" by (simp add: crockford_def)
  with a show ?thesis
    using sorted_wrt_nth_less [OF crockford_sorted, of i j] by simp
qed

lemma base32_fixed_mono:
  "x < y \<Longrightarrow> y < 32 ^ n \<Longrightarrow> base32_fixed n x < base32_fixed n y"
proof (induction n arbitrary: x y)
  case 0
  then show ?case by simp
next
  case (Suc n)
  let ?r = "{(u, v :: char). u < v}"
  from Suc.prems have q: "y div 32 < 32 ^ n"
    by (simp add: less_mult_imp_div_less mult.commute)
  from Suc.prems have le: "x div 32 \<le> y div 32"
    by (simp add: div_le_mono)
  show ?case
  proof (cases "x div 32 < y div 32")
    case True
    from Suc.IH [OF True q] have "(base32_fixed n (x div 32), base32_fixed n (y div 32)) \<in> lexord ?r"
      by (simp add: list_less_def)
    then have "(base32_fixed n (x div 32) @ [crockford ! (x mod 32)],
                base32_fixed n (y div 32) @ [crockford ! (y mod 32)]) \<in> lexord ?r"
      by (rule lexord_sufI) (simp add: length_base32_fixed)
    then show ?thesis by (simp add: list_less_def)
  next
    case False
    with le have e: "x div 32 = y div 32" by simp
    with Suc.prems(1) have "x mod 32 < y mod 32"
      by (metis div_mult_mod_eq nat_add_left_cancel_less)
    then have "crockford ! (x mod 32) < crockford ! (y mod 32)"
      by (rule crockford_mono) simp
    then have "([crockford ! (x mod 32)], [crockford ! (y mod 32)]) \<in> lexord ?r"
      by simp
    then have "(base32_fixed n (y div 32) @ [crockford ! (x mod 32)],
                base32_fixed n (y div 32) @ [crockford ! (y mod 32)]) \<in> lexord ?r"
      by (rule lexord_append_leftI)
    with e show ?thesis by (simp add: list_less_def)
  qed
qed

lemma ULID_str_mono:
  assumes "t1 < t2" and "t2 < 2 ^ 48"
  shows "ULID_str t1 r1 < ULID_str t2 r2"
proof -
  let ?r = "{(u, v :: char). u < v}"
  have "(2::nat) ^ 48 < 32 ^ 10" by simp
  with assms(2) have "t2 < 32 ^ 10" by simp
  from base32_fixed_mono [OF assms(1) this]
  have "(base32_fixed 10 t1, base32_fixed 10 t2) \<in> lexord ?r"
    by (simp add: list_less_def)
  then have "(base32_fixed 10 t1 @ base32_fixed 16 r1, base32_fixed 10 t2 @ base32_fixed 16 r2) \<in> lexord ?r"
    by (rule lexord_sufI) (simp add: length_base32_fixed)
  then show ?thesis by (simp add: ULID_str_def list_less_def)
qed

lemma issued_sorted:
  assumes "list_all (\<lambda>(kw, now, rnd). \<not> isl (Applicant kw) \<and> now < 2 ^ 48) evs"
    and "sorted_wrt (<) (map (\<lambda>(kw, now, rnd). now) evs)"
  shows "sorted_wrt (<) (issued evs)"
proof -
  from assms(2) have "sorted_wrt (\<lambda>a b. fst (snd a) < fst (snd b)) evs"
    by (simp add: sorted_wrt_map case_prod_unfold)
  then have "sorted_wrt (\<lambda>a b. ULID_str (fst (snd a)) (snd (snd a)) < ULID_str (fst (snd b)) (snd (snd b))) evs"
  proof (rule sorted_wrt_mono_rel [rotated])
    fix a b
    assume "a \<in> set evs" "b \<in> set evs" "fst (snd a) < fst (snd b)"
    moreover from \<open>b \<in> set evs\<close> assms(1) have "fst (snd b) < 2 ^ 48"
      by (auto simp: list_all_iff)
    ultimately show "ULID_str (fst (snd a)) (snd (snd a)) < ULID_str (fst (snd b)) (snd (snd b))"
      by (simp add: ULID_str_mono)
  qed
  then show ?thesis
    by (simp add: issued_def sorted_wrt_map case_prod_unfold)
qed

lemma build_rec_id: "map_of (build_rec i kw c) ''id'' = Some (JStr i)"
  by (simp add: build_rec_def)

lemma collector_page_session:
  "session_state (snd (collector_page ext cfg w kw now rnd)) = session_state w"
  by (simp add: collector_page_def save_jsonl_def insert_row_def Let_def
      split: sum.splits option.splits)

lemma collector_page_accepts:
  assumes "\<not> isl (Applicant kw)" and "now < 2 ^ 48"
    and "session_user (session_state w) = Some u"
  shows "supabase cfg \<Longrightarrow>
           applicants_table (snd (collector_page ext cfg w kw now rnd))
             = applicants_table w @ [build_rec (ULID_str now rnd) kw (user_id u)]"
    and "\<not> supabase cfg \<Longrightarrow>
           file_text (snd (collector_page ext cfg w kw now rnd)) ''data/applicants.jsonl''
             = file_text w ''data/applicants.jsonl''
               @ jsonl_text ext [build_rec (ULID_str now rnd) kw (user_id u)]"
  using assms
  by (auto simp: collector_page_def save_jsonl_def insert_row_def Let_def file_text_def
      jsonl_text_def split: sum.splits option.splits)

lemma submit_all_stores:
  assumes "list_all (\<lambda>(kw, now, rnd). \<not> isl (Applicant kw) \<and> now < 2 ^ 48) evs"
    and "session_user (session_state w) = Some u"
  shows "(supabase cfg \<longrightarrow>
           applicants_table (submit_all ext cfg w evs)
             = applicants_table w
               @ map (\<lambda>(kw, now, rnd). build_rec (ULID_str now rnd) kw (user_id u)) evs)
       \<and> (\<not> supabase cfg \<longrightarrow>
           file_text (submit_all ext cfg w evs) ''data/applicants.jsonl''
             = file_text w ''data/applicants.jsonl''
               @ jsonl_text ext
                   (map (\<lambda>(kw, now, rnd). build_rec (ULID_str now rnd) kw (user_id u)) evs))"
  using assms
proof (induction evs arbitrary: w)
  case Nil
  then show ?case by (simp add: jsonl_text_def)
next
  case (Cons ev evs)
  obtain kw now rnd where ev: "ev = (kw, now, rnd)" by (cases ev) auto
  let ?w = "snd (collector_page ext cfg w kw now rnd)"
  from Cons.prems ev have v: "\<not> isl (Applicant kw)" "now < 2 ^ 48" by simp_all
  from Cons.prems(2) have u: "session_user (session_state ?w) = Some u"
    by (simp add: collector_page_session)
  from Cons.prems(1) have "list_all (\<lambda>(kw, now, rnd). \<not> isl (Applicant kw) \<and> now < 2 ^ 48) evs"
    by simp
  from Cons.IH [OF this u] collector_page_accepts [OF v Cons.prems(2), of cfg ext rnd] ev
  show ?case by (simp add: jsonl_text_def)
qed

lemma base32_fixed_numeral:
  "base32_fixed (numeral k) x = base32_fixed (pred_numeral k) (x div 32) @ [crockford ! (x mod 32)]"
proof -
  have "numeral k = Suc (pred_numeral k)" by (rule numeral_eq_Suc)
  then show ?thesis by (simp only: base32_fixed.simps)
qed

lemma base32_fixed_1: "base32_fixed 1 x = [crockford ! (x mod 32)]"
  by simp

lemma sample_ulid_1: "ULID_str 1700000000000 5 = ''01HF7YAT000000000000000005''"
  by (simp add: ULID_str_def base32_fixed_numeral base32_fixed_1 crockford_def)

lemma sample_ulid_2: "ULID_str 1700000000001 3 = ''01HF7YAT010000000000000003''"
  by (simp add: ULID_str_def base32_fixed_numeral base32_fixed_1 crockford_def)

text \<open>
  Claim C4, as amended. For every sequence of accepted applicant submissions made by a
  logged-in user at strictly increasing clock values (in milliseconds, below \<open>2^48\<close>), on
  either backend: the records are appended to the store in the order of creation (rows of
  the remote table, lines of the local file), each carries as \<^verbatim>\<open>id\<close> the ULID of its clock value
  and randomness, these identifiers are pairwise distinct, and sorting them lexically yields
  exactly the order of creation. Users are outside this statement: locally their identifier
  is a random version-4 UUID, remotely the program assigns none.
\<close>

theorem applicant_ids_follow_creation_order:
  assumes "list_all (\<lambda>(kw, now, rnd). \<not> isl (Applicant kw) \<and> now < 2 ^ 48) evs"
    and "sorted_wrt (<) (map (\<lambda>(kw, now, rnd). now) evs)"
    and "session_user (session_state w) = Some u"
  shows "(if supabase cfg then
            applicants_table (submit_all ext cfg w evs) = applicants_table w @ created u evs
          else
            file_text (submit_all ext cfg w evs) ''data/applicants.jsonl''
              = file_text w ''data/applicants.jsonl'' @ jsonl_text ext (created u evs))
         \<and> map (\<lambda>r. map_of r ''id'') (created u evs) = map (\<lambda>i. Some (JStr i)) (issued evs)
         \<and> distinct (issued evs)
         \<and> sort (issued evs) = issued evs"
proof -
  from submit_all_stores [OF assms(1,3), of cfg ext]
  have a: "if supabase cfg then
            applicants_table (submit_all ext cfg w evs) = applicants_table w @ created u evs
          else
            file_text (submit_all ext cfg w evs) ''data/applicants.jsonl''
              = file_text w ''data/applicants.jsonl'' @ jsonl_text ext (created u evs)"
    by (simp add: created_def)
  have b: "map (\<lambda>r. map_of r ''id'') (created u evs) = map (\<lambda>i. Some (JStr i)) (issued evs)"
    by (simp add: created_def issued_def build_rec_id case_prod_unfold)
  from issued_sorted [OF assms(1,2)] have "sorted (issued evs)" "distinct (issued evs)"
    by (simp_all add: strict_sorted_iff)
  then have c: "distinct (issued evs)" "sort (issued evs) = issued evs"
    by (simp_all add: sorted_sort_id)
  from a b c show ?thesis by simp
qed

theorem applicant_ids_witness:
  "list_all (\<lambda>(kw, now, rnd). \<not> isl (Applicant kw) \<and> now < 2 ^ 48) sample_submissions
   \<and> sorted_wrt (<) (map (\<lambda>(kw, now, rnd). now) sample_submissions)
   \<and> session_user (session_state (sample_world (Some amina))) = Some amina
   \<and> supabase sample_service
   \<and> applicants_table (submit_all sample_ext sample_service (sample_world (Some amina)) sample_submissions)
       = applicants_table (sample_world (Some amina)) @ created amina sample_submissions
   \<and> issued sample_submissions = [''01HF7YAT000000000000000005'', ''01HF7YAT010000000000000003'']
   \<and> distinct (issued sample_submissions)
   \<and> sort (issued sample_submissions) = issued sample_submissions"
proof -
  have v: "\<not> isl (Applicant sample_kwargs)"
    by code_simp
  have a: "list_all (\<lambda>(kw, now, rnd). \<not> isl (Applicant kw) \<and> now < 2 ^ 48) sample_submissions"
    by (simp add: sample_submissions_def v)
  have b: "sorted_wrt (<) (map (\<lambda>(kw, now, rnd). now) sample_submissions)"
    by (simp add: sample_submissions_def)
  have c: "session_user (session_state (sample_world (Some amina))) = Some amina"
    by (simp add: sample_world_def)
  have d: "supabase sample_service"
    by code_simp
  have e: "issued sample_submissions = [''01HF7YAT000000000000000005'', ''01HF7YAT010000000000000003'']"
    by (simp add: issued_def sample_submissions_def sample_ulid_1 sample_ulid_2)
  from applicant_ids_follow_creation_order [OF a b c, of sample_service sample_ext] a b c d e
  show ?thesis by simp
qed

text \<open>
  The claim as stated fails for users: two users created one after the other on the local
  backend receive identifiers whose lexical order is the reverse of the order of creation.
\<close>

theorem user_ids_counterexample:
  "load_jsonl sample_ext ''data/users.jsonl'' sample_two_users
     = Inr [[(''email'', JStr ''first@edi.org''),
             (''password_hash'', JStr ''$2b$12$salt$1terces''),
             (''role'', JStr ''collector''),
             (''id'', JStr ''80000000-0000-4000-8000-000000000000'')],
            [(''email'', JStr ''second@edi.org''),
             (''password_hash'', JStr ''$2b$12$salt$2terces''),
             (''role'', JStr ''collector''),
             (''id'', JStr ''00000000-0000-4000-8000-000000000000'')]]
   \<and> sort [''80000000-0000-4000-8000-000000000000'', ''00000000-0000-4000-8000-000000000000'']
       \<noteq> [''80000000-0000-4000-8000-000000000000'', ''00000000-0000-4000-8000-000000000000'']"
proof -
  have a: "load_jsonl sample_ext ''data/users.jsonl'' sample_two_users
     = Inr [[(''email'', JStr ''first@edi.org''),
             (''password_hash'', JStr ''$2b$12$salt$1terces''),
             (''role'', JStr ''collector''),
             (''id'', JStr ''80000000-0000-4000-8000-000000000000'')],
            [(''email'', JStr ''second@edi.org''),
             (''password_hash'', JStr ''$2b$12$salt$2terces''),
             (''role'', JStr ''collector''),
             (''id'', JStr ''00000000-0000-4000-8000-000000000000'')]]"
    by code_simp
  have b: "\<not> sorted [''80000000-0000-4000-8000-000000000000'', ''00000000-0000-4000-8000-000000000000'']"
    by code_simp
  have "sort [''80000000-0000-4000-8000-000000000000'', ''00000000-0000-4000-8000-000000000000'']
       \<noteq> [''80000000-0000-4000-8000-000000000000'', ''00000000-0000-4000-8000-000000000000'']"
  proof
    assume "sort [''80000000-0000-4000-8000-000000000000'', ''00000000-0000-4000-8000-000000000000'']
       = [''80000000-0000-4000-8000-000000000000'', ''00000000-0000-4000-8000-000000000000'']"
    then have "sorted [''80000000-0000-4000-8000-000000000000'', ''00000000-0000-4000-8000-000000000000'']"
      by (metis sorted_sort)
    with b show False by simp
  qed
  with a show ?thesis by simp
qed

end
